theory Spec2Isabelle
  imports Complex_Main
begin

section \<open>Errors raised by the utility functions\<close>

text \<open>
  Every failure in \<^verbatim>\<open>utils.ts\<close> is a plain JavaScript \<^verbatim>\<open>Error\<close> carrying a
  message. The model keeps the message and tags each throw site with the kind of failure
  it stands for. \<open>TypeError\<close> is the runtime's own error for reading a property of
  \<^verbatim>\<open>undefined\<close>, and \<open>CommandFailed\<close> is the error with which the promise of an
  external command is rejected.
\<close>

datatype error =
    InvalidConfiguration string
  | NotFound string
  | Timeout string
  | AddressUnavailable string
  | TypeError string
  | CommandFailed string

section \<open>Strings\<close>

text \<open>
  A string is a list of bytes. \<open>showNat\<close> is the decimal representation that
  \<^verbatim>\<open>String(n)\<close> and a template literal give to a non-negative integer, and
  \<open>joinWith\<close> is \<^verbatim>\<open>Array.prototype.join\<close>. \<open>startsWith\<close>, \<open>endsWith\<close> and
  \<open>js_includes\<close> are the string methods \<^verbatim>\<open>startsWith\<close>, \<^verbatim>\<open>endsWith\<close> and \<^verbatim>\<open>includes\<close>.
\<close>

fun showNat :: "nat \<Rightarrow> string" where
  "showNat n = (if n < 10 then [char_of (48 + n)] else showNat (n div 10) @ [char_of (48 + n mod 10)])"

declare showNat.simps [simp del]

definition showInt :: "int \<Rightarrow> string" where
  "showInt i = (if i < 0 then CHR ''-'' # showNat (nat (- i)) else showNat (nat i))"

fun joinWith :: "string \<Rightarrow> string list \<Rightarrow> string" where
  "joinWith sep [] = []"
| "joinWith sep [x] = x"
| "joinWith sep (x # y # ys) = x @ sep @ joinWith sep (y # ys)"

definition startsWith :: "string \<Rightarrow> string \<Rightarrow> bool" where
  "startsWith p s = (take (length p) s = p)"

definition endsWith :: "string \<Rightarrow> string \<Rightarrow> bool" where
  "endsWith p s = (length p \<le> length s \<and> drop (length s - length p) s = p)"

fun js_includes :: "string \<Rightarrow> string \<Rightarrow> bool" where
  "js_includes p [] = (p = [])"
| "js_includes p (c # s) = (startsWith p (c # s) \<or> js_includes p s)"

section \<open>The dispatcher command line: model\<close>

subsection \<open>Structured argument payloads\<close>

text \<open>
  \<^verbatim>\<open>classArgs\<close> is structured data. \<^verbatim>\<open>JSON.stringify\<close> belongs to the runtime, not
  to the repository, so the functions below take the serializer as a parameter
  \<open>stringify\<close>. The second level of encoding applies it to the text produced by the
  first, which is a JSON string value.
\<close>

datatype json =
    JNull
  | JBool bool
  | JNumber int
  | JString string
  | JArray "json list"
  | JObject "(string \<times> json) list"

text \<open>
  The theorems about the command line hold for every serializer. The examples use the
  instance below, which follows \<^verbatim>\<open>JSON.stringify\<close> without indentation on null,
  booleans, integers that a double holds exactly and prints without an exponent, strings
  (bytes; quotation mark, reverse solidus and control characters escaped), arrays, and
  objects given as their own properties in enumeration order.
\<close>

definition hexDigit :: "nat \<Rightarrow> char" where
  "hexDigit n = (if n < 10 then char_of (48 + n) else char_of (87 + n))"

definition quoteChar :: "char \<Rightarrow> string" where
  "quoteChar c =
     (let n = (of_char c :: nat) in
      if n = 0x22 then [CHR 0x5C, CHR 0x22]
      else if n = 0x5C then [CHR 0x5C, CHR 0x5C]
      else if n = 8 then [CHR 0x5C, CHR ''b'']
      else if n = 9 then [CHR 0x5C, CHR ''t'']
      else if n = 10 then [CHR 0x5C, CHR ''n'']
      else if n = 12 then [CHR 0x5C, CHR ''f'']
      else if n = 13 then [CHR 0x5C, CHR ''r'']
      else if n < 0x20 then [CHR 0x5C, CHR ''u'', CHR ''0'', CHR ''0'', hexDigit (n div 16), hexDigit (n mod 16)]
      else [c])"

definition quoteJSONString :: "string \<Rightarrow> string" where
  "quoteJSONString s = CHR 0x22 # concat (map quoteChar s) @ [CHR 0x22]"

fun JSON_stringify :: "json \<Rightarrow> string" where
  "JSON_stringify JNull = ''null''"
| "JSON_stringify (JBool b) = (if b then ''true'' else ''false'')"
| "JSON_stringify (JNumber i) = showInt i"
| "JSON_stringify (JString s) = quoteJSONString s"
| "JSON_stringify (JArray xs) = ''['' @ joinWith '','' (map JSON_stringify xs) @ '']''"
| "JSON_stringify (JObject kvs) =
     ''{'' @ joinWith '','' (map (\<lambda>kv. quoteJSONString (fst kv) @ '':'' @ JSON_stringify (snd kv)) kvs) @ ''}''"

text \<open>\<^verbatim>\<open>process.platform\<close> is a string; the native-shell platform is \<^verbatim>\<open>'win32'\<close>.\<close>

definition crossPlatformStringify :: "(json \<Rightarrow> string) \<Rightarrow> string \<Rightarrow> json \<Rightarrow> string" where
  "crossPlatformStringify stringify platform args =
     (if platform = ''win32'' then stringify args
      else stringify (JString (stringify args)))"

subsection \<open>Tuner, assessor and advisor descriptions\<close>

text \<open>
  The three arguments of \<^verbatim>\<open>getMsgDispatcherCommand\<close> are typed \<^verbatim>\<open>any\<close>. An argument
  is \<^verbatim>\<open>undefined\<close>, \<^verbatim>\<open>null\<close> or an object with the properties of the function's
  documentation; the class name, the code directory and the class file name of an object
  are \<^verbatim>\<open>undefined\<close>, \<^verbatim>\<open>null\<close> or a string. \<^verbatim>\<open>classArgs\<close> is \<^verbatim>\<open>undefined\<close>
  (\<open>None\<close>) or structured data, \<^verbatim>\<open>null\<close> (\<open>JNull\<close>) included. Values of other
  types are not represented.
\<close>

datatype 'a optional = Undefined | Null | Defined 'a

record dispatcherSpec =
  className :: "string optional"
  classArgs :: "json option"
  codeDir :: "string optional"
  classFileName :: "string optional"

text \<open>An object is truthy; \<^verbatim>\<open>undefined\<close> and \<^verbatim>\<open>null\<close> are falsy.\<close>

primrec truthy :: "dispatcherSpec optional \<Rightarrow> bool" where
  "truthy Undefined = False"
| "truthy Null = False"
| "truthy (Defined x) = True"

text \<open>A template literal prints \<^verbatim>\<open>undefined\<close> and \<^verbatim>\<open>null\<close> as the words themselves.\<close>

primrec template :: "string optional \<Rightarrow> string" where
  "template Undefined = ''undefined''"
| "template Null = ''null''"
| "template (Defined s) = s"

text \<open>
  Reading a property of \<^verbatim>\<open>null\<close> or \<^verbatim>\<open>undefined\<close> raises the runtime's
  \<^verbatim>\<open>TypeError\<close>. The wording of its message depends on the runtime; the model names
  the property and the value.
\<close>

definition cannotRead :: "string \<Rightarrow> string \<Rightarrow> error" where
  "cannotRead property v = TypeError (''Cannot read property '' @ property @ '' of '' @ v)"

text \<open>
  The guard \<^verbatim>\<open>x !== undefined && x.length > 1\<close> of the optional directory and file name.
  \<^verbatim>\<open>null\<close> is not \<^verbatim>\<open>undefined\<close>, so its \<^verbatim>\<open>length\<close> is read.
\<close>

primrec meaningful :: "string optional \<Rightarrow> error + bool" where
  "meaningful Undefined = Inr False"
| "meaningful Null = Inl (cannotRead ''length'' ''null'')"
| "meaningful (Defined s) = Inr (1 < length s)"

text \<open>
  The command is built by appending. A conditional \<^verbatim>\<open>if (c) { command += x; }\<close> appends
  \<open>x\<close> when \<open>c\<close> holds and the empty string otherwise; a guard that raises ends the
  function with the error.
\<close>

definition getMsgDispatcherCommand ::
  "(json \<Rightarrow> string) \<Rightarrow> string \<Rightarrow> dispatcherSpec optional \<Rightarrow> dispatcherSpec optional \<Rightarrow>
     dispatcherSpec optional \<Rightarrow> bool \<Rightarrow> bool \<Rightarrow> error + string" where
  "getMsgDispatcherCommand stringify platform tuner assessor advisor multiPhase multiThread =
     (if (truthy tuner \<or> truthy assessor) \<and> truthy advisor then
        Inl (InvalidConfiguration ''Error: specify both tuner/assessor and advisor is not allowed'')
      else if \<not> truthy tuner \<and> \<not> truthy advisor then
        Inl (InvalidConfiguration ''Error: specify neither tuner nor advisor is not allowed'')
      else
        let command = ''python3 -m nni'';
            command = command @ (if multiPhase then '' --multi_phase'' else []);
            command = command @ (if multiThread then '' --multi_thread'' else [])
        in
        (case advisor of
           Defined adv \<Rightarrow>
             let command = command @ '' --advisor_class_name '' @ template (className adv);
                 command = command @
                   (case classArgs adv of
                      Some a \<Rightarrow> '' --advisor_args '' @ crossPlatformStringify stringify platform a
                    | None \<Rightarrow> [])
             in
             (case meaningful (codeDir adv) of
                Inl err \<Rightarrow> Inl err
              | Inr dir \<Rightarrow>
                  let command = command @
                        (if dir then '' --advisor_directory '' @ template (codeDir adv) else [])
                  in
                  (case meaningful (classFileName adv) of
                     Inl err \<Rightarrow> Inl err
                   | Inr file \<Rightarrow>
                       Inr (command @
                         (if file then '' --advisor_class_filename '' @ template (classFileName adv)
                          else []))))
         | _ \<Rightarrow>
             (case tuner of
                Undefined \<Rightarrow> Inl (cannotRead ''className'' ''undefined'')
              | Null \<Rightarrow> Inl (cannotRead ''className'' ''null'')
              | Defined tun \<Rightarrow>
                  let command = command @ '' --tuner_class_name '' @ template (className tun);
                      command = command @
                        (case classArgs tun of
                           Some a \<Rightarrow> '' --tuner_args '' @ crossPlatformStringify stringify platform a
                         | None \<Rightarrow> [])
                  in
                  (case meaningful (codeDir tun) of
                     Inl err \<Rightarrow> Inl err
                   | Inr dir \<Rightarrow>
                       let command = command @
                             (if dir then '' --tuner_directory '' @ template (codeDir tun) else [])
                       in
                       (case meaningful (classFileName tun) of
                          Inl err \<Rightarrow> Inl err
                        | Inr file \<Rightarrow>
                            let command = command @
                                  (if file
                                   then '' --tuner_class_filename '' @ template (classFileName tun)
                                   else [])
                            in
                            (case assessor of
                               Undefined \<Rightarrow> Inr command
                             | Null \<Rightarrow> Inl (cannotRead ''className'' ''null'')
                             | Defined ass \<Rightarrow>
                                 if className ass = Undefined then Inr command
                                 else
                                   let command = command @ '' --assessor_class_name '' @
                                                   template (className ass);
                                       command = command @
                                         (case classArgs ass of
                                            Some a \<Rightarrow> '' --assessor_args '' @
                                              crossPlatformStringify stringify platform a
                                          | None \<Rightarrow> [])
                                   in
                                   (case meaningful (codeDir ass) of
                                      Inl err \<Rightarrow> Inl err
                                    | Inr dir \<Rightarrow>
                                        let command = command @
                                              (if dir then '' --assessor_directory '' @
                                                             template (codeDir ass)
                                               else [])
                                        in
                                        (case meaningful (classFileName ass) of
                                           Inl err \<Rightarrow> Inl err
                                         | Inr file \<Rightarrow>
                                             Inr (command @
                                               (if file then '' --assessor_class_filename '' @
                                                               template (classFileName ass)
                                                else []))))))))))"

subsection \<open>Example descriptions\<close>

text \<open>
  The built-in and the customized tuner of the function's documentation, a tuner with a
  class name only, and an assessor object without a class name.
\<close>

definition evolutionTuner :: dispatcherSpec where
  "evolutionTuner =
     \<lparr>className = Defined ''EvolutionTuner'',
      classArgs = Some (JObject [(''optimize_mode'', JString ''maximize''), (''population_size'', JNumber 3)]),
      codeDir = Undefined, classFileName = Undefined\<rparr>"

definition bestTuner :: dispatcherSpec where
  "bestTuner =
     \<lparr>className = Defined ''BestTuner'',
      classArgs = Some (JObject [(''optimize_mode'', JString ''maximize''), (''population_size'', JNumber 3)]),
      codeDir = Defined ''/tmp/mytuner'', classFileName = Defined ''best_tuner.py''\<rparr>"

definition plainTuner :: dispatcherSpec where
  "plainTuner =
     \<lparr>className = Defined ''EvolutionTuner'', classArgs = None, codeDir = Undefined,
      classFileName = Undefined\<rparr>"


subsection \<open>The segments of a command line\<close>

text \<open>
  Names for the pieces that \<^verbatim>\<open>getMsgDispatcherCommand\<close> appends, used to state the shape
  of its result: the interpreter and the two feature flags, an argument payload, an
  optional field, and the whole assessor group.
\<close>

definition headPart :: "bool \<Rightarrow> bool \<Rightarrow> string" where
  "headPart mp mt = ''python3 -m nni'' @ (if mp then '' --multi_phase'' else []) @
     (if mt then '' --multi_thread'' else [])"

definition argsPart :: "string \<Rightarrow> (json \<Rightarrow> string) \<Rightarrow> string \<Rightarrow> json option \<Rightarrow> string" where
  "argsPart flag S p ao = (case ao of None \<Rightarrow> [] | Some a \<Rightarrow> flag @ crossPlatformStringify S p a)"

definition fieldPart :: "string \<Rightarrow> string optional \<Rightarrow> string" where
  "fieldPart flag f = (case f of Defined s \<Rightarrow> if 1 < length s then flag @ s else [] | _ \<Rightarrow> [])"

definition assessorPart :: "(json \<Rightarrow> string) \<Rightarrow> string \<Rightarrow> dispatcherSpec optional \<Rightarrow> string" where
  "assessorPart S p assessor =
     (case assessor of
        Defined s \<Rightarrow>
          if className s = Undefined then []
          else '' --assessor_class_name '' @ template (className s) @
               argsPart '' --assessor_args '' S p (classArgs s) @
               fieldPart '' --assessor_directory '' (codeDir s) @
               fieldPart '' --assessor_class_filename '' (classFileName s)
      | _ \<Rightarrow> [])"

text \<open>
  The descriptions on which a guard reads the \<^verbatim>\<open>length\<close> of \<^verbatim>\<open>null\<close>, and the assessors
  on which the assessor group raises: \<^verbatim>\<open>null\<close> itself, which is not \<^verbatim>\<open>undefined\<close>, and
  an object with a class name and such a field.
\<close>

definition nullField :: "dispatcherSpec \<Rightarrow> bool" where
  "nullField s = (codeDir s = Null \<or> classFileName s = Null)"

definition assessorRaises :: "dispatcherSpec optional \<Rightarrow> bool" where
  "assessorRaises assessor =
     (case assessor of
        Undefined \<Rightarrow> False
      | Null \<Rightarrow> True
      | Defined s \<Rightarrow> className s \<noteq> Undefined \<and> nullField s)"

text \<open>
  The calls that pass the validation and then read a property of \<^verbatim>\<open>null\<close>: with an
  advisor, a \<^verbatim>\<open>null\<close> directory or file name of the advisor; with a tuner, such a field
  of the tuner, or an assessor on which the assessor group raises.
\<close>

definition readsNull ::
  "dispatcherSpec optional \<Rightarrow> dispatcherSpec optional \<Rightarrow> dispatcherSpec optional \<Rightarrow> bool" where
  "readsNull tuner assessor advisor =
     (case advisor of
        Defined adv \<Rightarrow> nullField adv
      | _ \<Rightarrow> (case tuner of Defined tun \<Rightarrow> nullField tun \<or> assessorRaises assessor | _ \<Rightarrow> False))"

section \<open>Spawning the dispatcher process: model\<close>

subsection \<open>String splitting and joining\<close>

text \<open>
  \<^verbatim>\<open>String.prototype.split\<close> with a string separator scans from the left: at each
  position where the separator starts, the piece collected so far is closed and the scan
  continues behind the separator. The last piece, possibly empty, is always returned, so
  the result is never the empty array for a non-empty separator. With the empty separator
  the result is the list of the characters. \<open>joinWith\<close> above is
  \<^verbatim>\<open>Array.prototype.join\<close>.
\<close>

function splitAux :: "string \<Rightarrow> string \<Rightarrow> string \<Rightarrow> string list" where
  "splitAux sep cur [] = [cur]"
| "splitAux sep cur (c # cs) =
     (if sep \<noteq> [] \<and> take (length sep) (c # cs) = sep
      then cur # splitAux sep [] (drop (length sep) (c # cs))
      else splitAux sep (cur @ [c]) cs)"
  by pat_completeness auto
termination
  by (relation "measure (\<lambda>(sep, cur, s). length s)") auto

definition js_split :: "string \<Rightarrow> string \<Rightarrow> string list" where
  "js_split sep s = (if sep = [] then map (\<lambda>c. [c]) s else splitAux sep [] s)"

text \<open>
  Replacing every occurrence of a non-empty pattern, scanning from the left and not
  looking again at text already replaced: what the idiom
  \<^verbatim>\<open>s.split(old).join(new)\<close> is meant to compute.
\<close>

function replaceAll :: "string \<Rightarrow> string \<Rightarrow> string \<Rightarrow> string" where
  "replaceAll old new [] = []"
| "replaceAll old new (c # cs) =
     (if old \<noteq> [] \<and> take (length old) (c # cs) = old
      then new @ replaceAll old new (drop (length old) (c # cs))
      else c # replaceAll old new cs)"
  by pat_completeness auto
termination
  by (relation "measure (\<lambda>(old, new, s). length s)") auto

subsection \<open>The spawn call\<close>

text \<open>
  \<^verbatim>\<open>getTunerProc\<close> returns the child process that \<^verbatim>\<open>spawn\<close> creates. The model
  returns the call it makes: the executable, the argument list and the options. The
  option \<^verbatim>\<open>shell\<close> is absent, hence false, in the \<^verbatim>\<open>win32\<close> branch. The standard
  streams and the environment are passed through unchanged and stay abstract (the
  parameter \<open>stdioArg\<close> is the source's \<^verbatim>\<open>stdio\<close>).
  Indexing an empty array yields \<^verbatim>\<open>undefined\<close>, whose \<^verbatim>\<open>length\<close> cannot be read.
\<close>

record ('s, 'e) spawnOptions =
  stdio :: 's
  cwd :: string
  env :: 'e
  shell :: bool

record ('s, 'e) spawnCall =
  executable :: string
  arguments :: "string list"
  options :: "('s, 'e) spawnOptions"

definition getTunerProc ::
  "string \<Rightarrow> string \<Rightarrow> 's \<Rightarrow> string \<Rightarrow> 'e \<Rightarrow> error + ('s, 'e) spawnCall" where
  "getTunerProc platform command stdioArg newCwd newEnv =
     (if platform = ''win32'' then
        let command = joinWith ''python'' (js_split ''python3'' command) in
        (case take 1 (js_split '' '' command) of
           [] \<Rightarrow> Inl (TypeError ''Cannot read property length of undefined'')
         | cmd # _ \<Rightarrow>
             Inr \<lparr>executable = cmd,
                  arguments = js_split '' '' (drop (length cmd + 1) command),
                  options = \<lparr>stdio = stdioArg, cwd = newCwd, env = newEnv, shell = False\<rparr>\<rparr>)
      else
        Inr \<lparr>executable = command, arguments = [],
             options = \<lparr>stdio = stdioArg, cwd = newCwd, env = newEnv, shell = True\<rparr>\<rparr>)"

section \<open>Promises and external commands: model\<close>

text \<open>
  A promise is described by the state it ends in: \<open>Pending\<close> is a promise that never
  settles. A \<^verbatim>\<open>Deferred\<close> holds a promise that settles only when \<^verbatim>\<open>resolve\<close> or
  \<^verbatim>\<open>reject\<close> is called on it; the first call wins.
\<close>

datatype 'a promise = Pending | Fulfilled 'a | Rejected error

record 'a deferred =
  promise :: "'a promise"

definition newDeferred :: "'a deferred" where
  "newDeferred = \<lparr>promise = Pending\<rparr>"

definition resolve :: "'a \<Rightarrow> 'a deferred \<Rightarrow> 'a deferred" where
  "resolve v d = (case promise d of Pending \<Rightarrow> d\<lparr>promise := Fulfilled v\<rparr> | _ \<Rightarrow> d)"

text \<open>
  \<^verbatim>\<open>cpp.exec\<close> runs a shell command line and returns a promise of its output; the
  promise is rejected when the command exits with a non-zero status. What a command does
  belongs to the environment, so every function that runs one takes \<open>exec\<close> as a
  parameter: for a command line, the time in milliseconds after which the promise
  settles and the state it settles in (the time is irrelevant for \<open>Pending\<close>).
\<close>

record execResult =
  stdout :: string
  stderr :: string

type_synonym shellExec = "string \<Rightarrow> nat \<times> execResult promise"

subsection \<open>Terminating a process\<close>

text \<open>
  \<^verbatim>\<open>killPid\<close> is an \<^verbatim>\<open>async\<close> function: its result follows the promise it returns,
  which is the promise of a \<^verbatim>\<open>Deferred\<close> created at the start. Between creation and
  return the function awaits \<^verbatim>\<open>kill <pid>\<close>, ignoring a rejection; it calls neither
  \<^verbatim>\<open>resolve\<close> nor \<^verbatim>\<open>reject\<close>. If the awaited command never settles, the function
  never reaches its return.
\<close>

definition killPid :: "shellExec \<Rightarrow> nat \<Rightarrow> unit promise" where
  "killPid exec pid =
     (let deferred = (newDeferred :: unit deferred) in
      case snd (exec (''kill '' @ showNat pid)) of
        Pending \<Rightarrow> Pending
      | Fulfilled r \<Rightarrow> promise deferred
      | Rejected err \<Rightarrow> promise deferred)"

text \<open>
  \<^verbatim>\<open>isAlive\<close>, next to it in the source, is built the same way and does resolve its
  \<^verbatim>\<open>Deferred\<close> before returning the promise. On \<^verbatim>\<open>win32\<close> it runs \<^verbatim>\<open>tasklist\<close>
  synchronously (\<open>execSync\<close>: the output, or the error thrown, which rejects the promise
  of the \<^verbatim>\<open>async\<close> function); elsewhere it awaits \<^verbatim>\<open>kill -0 <pid>\<close> and takes a
  rejection as the answer that the process is gone.
\<close>

definition isAlive ::
  "string \<Rightarrow> (string \<Rightarrow> error + string) \<Rightarrow> shellExec \<Rightarrow> nat \<Rightarrow> bool promise" where
  \<open>isAlive platform execSync exec pid =
     (let deferred = (newDeferred :: bool deferred) in
      if platform = ''win32'' then
        (case execSync (''tasklist /FI "PID eq '' @ showNat pid @ ''"'') of
           Inl err \<Rightarrow> Rejected err
         | Inr str \<Rightarrow> promise (resolve (\<not> js_includes ''No tasks'' str) deferred))
      else
        (case snd (exec (''kill -0 '' @ showNat pid)) of
           Pending \<Rightarrow> Pending
         | Fulfilled r \<Rightarrow> promise (resolve True deferred)
         | Rejected err \<Rightarrow> promise (resolve False deferred)))\<close>

text \<open>Two environments: one where the process exists, one where it is gone.\<close>

definition killSucceeds :: shellExec where
  "killSucceeds c = (3, Fulfilled \<lparr>stdout = [], stderr = []\<rparr>)"

definition killNoSuchProcess :: shellExec where
  "killNoSuchProcess c = (3, Rejected (CommandFailed ''kill: No such process''))"

subsection \<open>Counting files\<close>

text \<open>
  \<^verbatim>\<open>parseInt\<close> without a radix: leading white space is skipped, a sign is read, the
  prefix \<^verbatim>\<open>0x\<close> selects radix 16, and the longest prefix of digits is converted; there
  is no number (\<open>None\<close>, the source's \<^verbatim>\<open>NaN\<close>) when that prefix is empty. Strings are
  bytes, so the white space characters are the ASCII ones.
\<close>

definition isWhiteSpace :: "char \<Rightarrow> bool" where
  "isWhiteSpace c = ((of_char c :: nat) \<in> {9, 10, 11, 12, 13, 32})"

definition digitValue :: "char \<Rightarrow> nat option" where
  "digitValue c =
     (let n = (of_char c :: nat) in
      if 48 \<le> n \<and> n \<le> 57 then Some (n - 48)
      else if 97 \<le> n \<and> n \<le> 122 then Some (n - 87)
      else if 65 \<le> n \<and> n \<le> 90 then Some (n - 55)
      else None)"

fun parseDigits :: "nat \<Rightarrow> string \<Rightarrow> nat list" where
  "parseDigits R [] = []"
| "parseDigits R (c # cs) =
     (case digitValue c of
        Some d \<Rightarrow> if d < R then d # parseDigits R cs else []
      | None \<Rightarrow> [])"

definition parseInt :: "string \<Rightarrow> int option" where
  "parseInt s =
     (let s1 = dropWhile isWhiteSpace s;
          negative = (take 1 s1 = ''-'');
          s2 = (if take 1 s1 = ''-'' \<or> take 1 s1 = ''+'' then drop 1 s1 else s1);
          hex = (take 2 s2 = ''0x'' \<or> take 2 s2 = ''0X'');
          R = (if hex then 16 else 10);
          s3 = (if hex then drop 2 s2 else s2);
          ds = parseDigits R s3
      in if ds = [] then None
         else Some ((if negative then - 1 else 1) * int (foldl (\<lambda>a d. a * R + d) 0 ds)))"

text \<open>
  The callback that receives the output of \<^verbatim>\<open>find ... | wc -l\<close>: the count starts at
  \<open>-1\<close> and is replaced only when the output is a non-empty string and the parsed
  number is truthy, that is, a number other than zero.
\<close>

definition fileCountOf :: "string \<Rightarrow> int" where
  "fileCountOf out =
     (case parseInt out of
        Some n \<Rightarrow> if out \<noteq> [] \<and> n \<noteq> 0 then n else - 1
      | None \<Rightarrow> - 1)"

text \<open>
  \<^verbatim>\<open>countFilesRecursively\<close> throws at once when the directory does not exist.
  Otherwise it returns the race between a \<^verbatim>\<open>Deferred\<close>, resolved when the command's
  promise is fulfilled, and a timer that rejects after 5000 milliseconds. A rejected
  command has no handler, so the \<^verbatim>\<open>Deferred\<close> stays pending and the timer wins. The
  optional parameter \<^verbatim>\<open>timeoutMilliSeconds\<close> is never read and is left out.
\<close>

definition countFilesRecursively :: "(string \<Rightarrow> bool) \<Rightarrow> shellExec \<Rightarrow> string \<Rightarrow> error + int promise" where
  "countFilesRecursively existsSync exec directory =
     (if \<not> existsSync directory then
        Inl (NotFound (''Direcotory '' @ directory @ '' doesn'' @ [CHR 0x27] @ ''t exist''))
      else
        Inr (case exec (''find '' @ directory @ '' -type f | wc -l'') of
               (t, Fulfilled result) \<Rightarrow>
                 if t < 5000 then Fulfilled (fileCountOf (stdout result))
                 else Rejected (Timeout (''Timeout: path '' @ directory @ '' has too many files''))
             | (t, Rejected err) \<Rightarrow>
                 Rejected (Timeout (''Timeout: path '' @ directory @ '' has too many files''))
             | (t, Pending) \<Rightarrow>
                 Rejected (Timeout (''Timeout: path '' @ directory @ '' has too many files''))))"

text \<open>
  Environments for the examples: every directory exists, and the enumeration command
  prints the given count followed by a newline after 12 milliseconds, as
  \<^verbatim>\<open>wc -l\<close> does.
\<close>

definition everyDirExists :: "string \<Rightarrow> bool" where
  "everyDirExists d = True"

definition noDirExists :: "string \<Rightarrow> bool" where
  "noDirExists d = False"

definition wcPrints :: "nat \<Rightarrow> shellExec" where
  "wcPrints n c = (12, Fulfilled \<lparr>stdout = showNat n @ [CHR 0x0A], stderr = []\<rparr>)"

section \<open>The cached network address: model\<close>

text \<open>
  The module variable \<^verbatim>\<open>cachedipv4Address\<close> is the only state; a call takes its value
  and returns the new one with the result. \<^verbatim>\<open>os.networkInterfaces().eth0\<close> is
  \<^verbatim>\<open>undefined\<close> (\<open>None\<close>) or the list of the addresses assigned to the interface. The
  loop returns at the first entry of family \<^verbatim>\<open>IPv4\<close>. An empty string is falsy.
\<close>

record networkInterfaceInfo =
  address :: string
  family :: string

fun firstIPv4 :: "networkInterfaceInfo list \<Rightarrow> string option" where
  "firstIPv4 [] = None"
| "firstIPv4 (item # items) =
     (if family item = ''IPv4'' then Some (address item) else firstIPv4 items)"

definition getIPV4Address ::
  "networkInterfaceInfo list option \<Rightarrow> string \<Rightarrow> (error + string) \<times> string" where
  "getIPV4Address eth0 cachedipv4Address =
     (if cachedipv4Address \<noteq> [] \<and> 0 < length cachedipv4Address then
        (Inr cachedipv4Address, cachedipv4Address)
      else
        (case eth0 of
           Some items \<Rightarrow>
             (case firstIPv4 items of
                Some a \<Rightarrow> (Inr a, a)
              | None \<Rightarrow>
                  (Inl (AddressUnavailable
                         ''getIPV4Address() failed because no valid IPv4 address found.''),
                   cachedipv4Address))
         | None \<Rightarrow>
             (Inl (AddressUnavailable
                    ''getIPV4Address() failed because os.networkInterfaces().eth0 is undefined.''),
              cachedipv4Address)))"

text \<open>A sequence of calls, each seeing its own snapshot of the interfaces.\<close>

fun getIPV4Addresses ::
  "networkInterfaceInfo list option list \<Rightarrow> string \<Rightarrow> (error + string) list \<times> string" where
  "getIPV4Addresses [] cached = ([], cached)"
| "getIPV4Addresses (eth0 # rest) cached =
     (let (r, cached') = getIPV4Address eth0 cached;
          (rs, cached'') = getIPV4Addresses rest cached'
      in (r # rs, cached''))"

definition exampleEth0 :: "networkInterfaceInfo list option" where
  "exampleEth0 =
     Some [\<lparr>address = ''fe80::1'', family = ''IPv6''\<rparr>, \<lparr>address = ''10.0.0.4'', family = ''IPv4''\<rparr>]"

text \<open>
  An interface whose first entry of family \<^verbatim>\<open>IPv4\<close> carries an empty address. The
  source returns \<^verbatim>\<open>item.address\<close> as it is.
\<close>

definition blankEth0 :: "networkInterfaceInfo list option" where
  "blankEth0 = Some [\<lparr>address = [], family = ''IPv4''\<rparr>]"

section \<open>The launcher script: model\<close>

subsection \<open>Rendering\<close>

text \<open>
  \<^verbatim>\<open>runScript\<close> reads two fields of the trial configuration, \<^verbatim>\<open>command\<close> and
  \<^verbatim>\<open>codeDir\<close>; they are \<open>trialCommand\<close> and \<open>trialCodeDir\<close> here, since the
  dispatcher descriptions have a \<^verbatim>\<open>codeDir\<close> of their own. An environment override is
  a pair of a key and a value (the field \<open>val\<close> is the source's \<^verbatim>\<open>value\<close>).
  \<^verbatim>\<open>path.join\<close> belongs to the runtime and is a parameter.
\<close>

record trialConfig =
  trialCommand :: string
  trialCodeDir :: string

record variable =
  key :: string
  val :: string

definition runScriptLines ::
  "(string list \<Rightarrow> string) \<Rightarrow> string \<Rightarrow> trialConfig \<Rightarrow> string \<Rightarrow> variable list \<Rightarrow> string list" where
  \<open>runScriptLines pathJoin platform localTrailConfig workingDirectory variables =
     (if platform = ''win32'' then
        [''cd '' @ trialCodeDir localTrailConfig] @
        map (\<lambda>variable. ''$env:'' @ key variable @ ''="'' @ val variable @ ''"'') variables @
        [''Invoke-Expression "'' @ trialCommand localTrailConfig @ ''" 2>'' @
           pathJoin [workingDirectory, ''stderr''],
         ''$NOW_DATE = [int64](([datetime]::UtcNow)-(get-date "1/1/1970")).TotalSeconds'',
         ''$NOW_DATE = "$NOW_DATE" + "000"'',
         ''$state = 0'',
         ''if($?){$state = 0}'',
         ''else{$state = 2}'',
         ''Write $state " " $NOW_DATE  | Out-File '' @
           pathJoin [workingDirectory, ''.nni'', ''state''] @ '' -NoNewline -encoding utf8'']
      else
        [''#!/bin/bash'', ''cd '' @ trialCodeDir localTrailConfig] @
        map (\<lambda>variable. ''export '' @ key variable @ ''='' @ val variable) variables @
        [''eval '' @ trialCommand localTrailConfig @ '' 2>'' @ pathJoin [workingDirectory, ''stderr''],
         ''echo $? `date +%s000` >'' @ pathJoin [workingDirectory, ''.nni'', ''state'']])\<close>

text \<open>
  What \<^verbatim>\<open>runScript\<close> does, in order, each step awaited before the next: two directories
  are made, the metrics file is created, the script is written with mode \<^verbatim>\<open>0o777\<close> (511); the
  result is the command that runs the script.
\<close>

datatype effect = Exec string | WriteFile string string nat

definition runScript ::
  "(string list \<Rightarrow> string) \<Rightarrow> string \<Rightarrow> trialConfig \<Rightarrow> string \<Rightarrow> variable list \<Rightarrow>
     effect list \<times> string list" where
  "runScript pathJoin platform localTrailConfig workingDirectory variables =
     (let runScriptLines = runScriptLines pathJoin platform localTrailConfig workingDirectory variables in
      if platform = ''win32'' then
        ([Exec (''mkdir '' @ workingDirectory),
          Exec (''mkdir '' @ pathJoin [workingDirectory, ''.nni'']),
          Exec (''copy NUL '' @ pathJoin [workingDirectory, ''.nni'', ''metrics'']),
          WriteFile (pathJoin [workingDirectory, ''run.ps1''])
            (joinWith [CHR 0x0D, CHR 0x0A] runScriptLines) 511],
         [''powershell'', ''run.ps1''])
      else
        ([Exec (''mkdir -p '' @ workingDirectory),
          Exec (''mkdir -p '' @ pathJoin [workingDirectory, ''.nni'']),
          Exec (''touch '' @ pathJoin [workingDirectory, ''.nni'', ''metrics'']),
          WriteFile (pathJoin [workingDirectory, ''run.sh''])
            (joinWith [CHR 0x0A] runScriptLines) 511],
         [''bash'', ''run.sh'']))"

subsection \<open>Running the launcher\<close>

text \<open>
  The script is run by a shell outside the program. The two interpreters below cover the
  statements the launcher is made of, line by line, and record the files it writes (the
  newest first). The user command is not interpreted: \<open>rc\<close> is the exit status it ends
  with, and \<open>now\<close> is the time in seconds when the launcher reads the clock. The
  command is one that hands control back to the shell. A command that ends the shell
  itself, such as \<^verbatim>\<open>exit 3\<close> evaluated by \<^verbatim>\<open>eval\<close>, ends the script before the state
  file is written; such commands are not covered.

  In bash, \<^verbatim>\<open>$?\<close> after the \<^verbatim>\<open>eval\<close> line is the exit status of the user command, and
  the \<^verbatim>\<open>echo\<close> line writes it, a space, the seconds followed by \<^verbatim>\<open>000\<close>, and a newline
  to the file named after \<^verbatim>\<open>>\<close>. Every other line of the launcher (the comment,
  \<^verbatim>\<open>cd\<close>, \<^verbatim>\<open>export\<close>) writes no file.
\<close>

definition bashLine ::
  "nat \<Rightarrow> nat \<Rightarrow> nat \<times> (string \<times> string) list \<Rightarrow> string \<Rightarrow> nat \<times> (string \<times> string) list" where
  \<open>bashLine rc now st line =
     (if startsWith ''eval '' line then (rc, snd st)
      else if startsWith ''echo $? `date +%s000` >'' line then
        (0, (drop (length ''echo $? `date +%s000` >'') line,
             showNat (fst st) @ '' '' @ showNat now @ ''000'' @ [CHR 0x0A]) # snd st)
      else (0, snd st))\<close>

definition runBash :: "nat \<Rightarrow> nat \<Rightarrow> string list \<Rightarrow> (string \<times> string) list" where
  "runBash rc now script = snd (foldl (bashLine rc now) (0, []) script)"

text \<open>
  In PowerShell the launcher keeps two variables, \<^verbatim>\<open>$state\<close> and \<^verbatim>\<open>$NOW_DATE\<close>. The
  automatic variable \<^verbatim>\<open>$?\<close> is a Boolean; \<open>ok\<close> is the value it has when the
  \<^verbatim>\<open>if\<close> statement reads it, which is all the launcher ever looks at of the outcome
  of the user command. The \<^verbatim>\<open>else\<close> line continues the \<^verbatim>\<open>if\<close> statement of the line
  before. \<^verbatim>\<open>Write\<close> sends its three arguments to \<^verbatim>\<open>Out-File\<close>, which with
  \<^verbatim>\<open>-NoNewline\<close> writes them one after the other (the byte order mark of the encoding
  is not modelled).
\<close>

record psVars =
  stateVar :: nat
  nowDate :: string
  written :: "(string \<times> string) list"

definition psLine :: "bool \<Rightarrow> nat \<Rightarrow> psVars \<Rightarrow> string \<Rightarrow> psVars" where
  \<open>psLine ok now st line =
     (if line = ''$NOW_DATE = [int64](([datetime]::UtcNow)-(get-date "1/1/1970")).TotalSeconds''
      then st\<lparr>nowDate := showNat now\<rparr>
      else if line = ''$NOW_DATE = "$NOW_DATE" + "000"'' then st\<lparr>nowDate := nowDate st @ ''000''\<rparr>
      else if line = ''$state = 0'' then st\<lparr>stateVar := 0\<rparr>
      else if line = ''if($?){$state = 0}'' then (if ok then st\<lparr>stateVar := 0\<rparr> else st)
      else if line = ''else{$state = 2}'' then (if ok then st else st\<lparr>stateVar := 2\<rparr>)
      else if startsWith ''Write $state " " $NOW_DATE  | Out-File '' line \<and>
              endsWith '' -NoNewline -encoding utf8'' line
      then st\<lparr>written :=
                (take (length line - length ''Write $state " " $NOW_DATE  | Out-File '' -
                         length '' -NoNewline -encoding utf8'')
                   (drop (length ''Write $state " " $NOW_DATE  | Out-File '') line),
                 showNat (stateVar st) @ '' '' @ nowDate st) # written st\<rparr>
      else st)\<close>

definition runPowerShell :: "bool \<Rightarrow> nat \<Rightarrow> string list \<Rightarrow> (string \<times> string) list" where
  "runPowerShell ok now script =
     written (foldl (psLine ok now) \<lparr>stateVar = 0, nowDate = [], written = []\<rparr> script)"

text \<open>
  The files left behind when the launcher rendered for a trial has run, and the first
  white-space separated field of the state file, which is what a monitor reads as the
  exit code.
\<close>

definition runLauncher ::
  "(string list \<Rightarrow> string) \<Rightarrow> string \<Rightarrow> trialConfig \<Rightarrow> string \<Rightarrow> variable list \<Rightarrow>
     nat \<Rightarrow> bool \<Rightarrow> nat \<Rightarrow> (string \<times> string) list" where
  "runLauncher pathJoin platform localTrailConfig workingDirectory variables rc ok now =
     (if platform = ''win32''
      then runPowerShell ok now
             (runScriptLines pathJoin platform localTrailConfig workingDirectory variables)
      else runBash rc now
             (runScriptLines pathJoin platform localTrailConfig workingDirectory variables))"

definition firstField :: "string \<Rightarrow> string" where
  "firstField s = takeWhile (\<lambda>c. \<not> isWhiteSpace c) (dropWhile isWhiteSpace s)"

definition stateFileField ::
  "(string list \<Rightarrow> string) \<Rightarrow> string \<Rightarrow> trialConfig \<Rightarrow> string \<Rightarrow> variable list \<Rightarrow>
     nat \<Rightarrow> bool \<Rightarrow> nat \<Rightarrow> string option" where
  "stateFileField pathJoin platform localTrailConfig workingDirectory variables rc ok now =
     map_option firstField
       (map_of (runLauncher pathJoin platform localTrailConfig workingDirectory variables rc ok now)
          (pathJoin [workingDirectory, ''.nni'', ''state'']))"

text \<open>
  An example trial. The two joins put the separator of the platform between the
  segments, which is what \<^verbatim>\<open>path.join\<close> does on segments that need no normalisation.
\<close>

definition posixJoin :: "string list \<Rightarrow> string" where
  "posixJoin = joinWith ''/''"

definition win32Join :: "string list \<Rightarrow> string" where
  "win32Join = joinWith [CHR 0x5C]"

definition mnistTrial :: trialConfig where
  "mnistTrial = \<lparr>trialCommand = ''python3 mnist.py'', trialCodeDir = ''/home/user/mnist''\<rparr>"

definition mnistVariables :: "variable list" where
  "mnistVariables = [\<lparr>key = ''NNI_PLATFORM'', val = ''local''\<rparr>, \<lparr>key = ''NNI_TRIAL_JOB_ID'', val = ''abcde''\<rparr>]"

section \<open>Unique identifiers: model\<close>

subsection \<open>Numbers\<close>

text \<open>
  A JavaScript number is a double. The numbers that occur in \<^verbatim>\<open>uniqueString\<close> are
  non-negative integers, \<^verbatim>\<open>Infinity\<close> and \<^verbatim>\<open>NaN\<close>. An arithmetic result is rounded to
  the nearest double, ties to the even mantissa, and is \<^verbatim>\<open>Infinity\<close> once the rounded
  value reaches \<open>2 ^ 1024\<close>: \<open>round53\<close> does this for an exact result that is a
  non-negative integer.
\<close>

datatype number = Finite nat | Infinity | NaN

fun bitLength :: "nat \<Rightarrow> nat" where
  "bitLength n = (if n = 0 then 0 else 1 + bitLength (n div 2))"

declare bitLength.simps [simp del]

definition round53 :: "nat \<Rightarrow> number" where
  "round53 n =
     (if n < 2 ^ 53 then Finite n
      else
        let e = bitLength n - 53;
            m = n div 2 ^ e;
            r = n mod 2 ^ e;
            h = 2 ^ (e - 1);
            m' = (if h < r \<or> (r = h \<and> odd m) then m + 1 else m)
        in if 2 ^ 1024 \<le> m' * 2 ^ e then Infinity else Finite (m' * 2 ^ e))"

text \<open>
  The operations the function uses, with a positive integer constant as the second
  operand: \<^verbatim>\<open>a * k\<close>, \<^verbatim>\<open>a + k\<close>, \<^verbatim>\<open>a % k\<close> and \<^verbatim>\<open>Math.floor(a / k)\<close>. The remainder
  of a finite number is exact, that of \<^verbatim>\<open>Infinity\<close> is \<^verbatim>\<open>NaN\<close>. The quotient is rounded
  before the floor is taken: it is computed with 64 extra binary places, which leaves at
  least one place beyond the mantissa for a divisor up to 64, and the remainder of the
  integer division is the sticky bit of the rounding.
\<close>

definition jsTimes :: "number \<Rightarrow> nat \<Rightarrow> number" where
  "jsTimes a k = (case a of Finite x \<Rightarrow> round53 (x * k) | Infinity \<Rightarrow> Infinity | NaN \<Rightarrow> NaN)"

definition jsPlus :: "number \<Rightarrow> nat \<Rightarrow> number" where
  "jsPlus a k = (case a of Finite x \<Rightarrow> round53 (x + k) | Infinity \<Rightarrow> Infinity | NaN \<Rightarrow> NaN)"

definition jsMod :: "number \<Rightarrow> nat \<Rightarrow> number" where
  "jsMod a k = (case a of Finite x \<Rightarrow> Finite (x mod k) | Infinity \<Rightarrow> NaN | NaN \<Rightarrow> NaN)"

definition floorQuotient :: "nat \<Rightarrow> nat \<Rightarrow> nat" where
  "floorQuotient x k =
     (if x = 0 then 0
      else
        let q = (x * 2 ^ 64) div k;
            sticky = ((x * 2 ^ 64) mod k \<noteq> 0);
            e = bitLength q - 53;
            m = q div 2 ^ e;
            r = q mod 2 ^ e;
            h = 2 ^ (e - 1);
            m' = (if h < r \<or> (r = h \<and> (sticky \<or> odd m)) then m + 1 else m)
        in (m' * 2 ^ e) div 2 ^ 64)"

definition jsFloorDiv :: "number \<Rightarrow> nat \<Rightarrow> number" where
  "jsFloorDiv a k =
     (case a of Finite x \<Rightarrow> Finite (floorQuotient x k) | Infinity \<Rightarrow> Infinity | NaN \<Rightarrow> NaN)"

subsection \<open>Characters\<close>

text \<open>
  \<^verbatim>\<open>charMap\<close> compares and subtracts; every comparison with \<^verbatim>\<open>NaN\<close> is false, so
  \<^verbatim>\<open>NaN\<close> takes the last branch and stays \<^verbatim>\<open>NaN\<close>. \<^verbatim>\<open>String.fromCharCode\<close> turns a
  number into a 16-bit code unit, and \<^verbatim>\<open>NaN\<close> and \<^verbatim>\<open>Infinity\<close> into the code unit 0. A
  string is the list of its code units here.
\<close>

definition charMap :: "number \<Rightarrow> number" where
  "charMap index =
     (case index of
        Finite i \<Rightarrow>
          if i < 26 then round53 (i + 97)
          else if i < 52 then jsPlus (round53 (i - 26)) 65
          else jsPlus (round53 (i - 52)) 48
      | Infinity \<Rightarrow> Infinity
      | NaN \<Rightarrow> NaN)"

definition fromCharCode :: "number \<Rightarrow> nat" where
  "fromCharCode c = (case c of Finite n \<Rightarrow> n mod 65536 | Infinity \<Rightarrow> 0 | NaN \<Rightarrow> 0)"

subsection \<open>The generator\<close>

text \<open>
  The number of random bytes is \<^verbatim>\<open>Math.ceil((Math.log2(52) + Math.log2(62) * (len - 1)) / 8)\<close>,
  taken here in exact real arithmetic. The random source is a parameter: for a size, the
  bytes it returns (numbers below 256). The bytes are folded into one number, and the
  loop takes one character per round off that number.
\<close>

definition byteLength :: "nat \<Rightarrow> nat" where
  "byteLength len = nat \<lceil>(log 2 52 + log 2 62 * (real len - 1)) / 8\<rceil>"

fun codesLoop :: "nat \<Rightarrow> number \<Rightarrow> number list" where
  "codesLoop 0 num = []"
| "codesLoop (Suc k) num = charMap (jsMod num 62) # codesLoop k (jsFloorDiv num 62)"

definition uniqueStringFrom :: "nat list \<Rightarrow> nat \<Rightarrow> nat list" where
  "uniqueStringFrom bytes len =
     (let num = foldl (\<lambda>a b. jsPlus (jsTimes a 256) b) (Finite 0) bytes;
          codes = charMap (jsMod num 52) # codesLoop (len - 1) (jsFloorDiv num 52)
      in map fromCharCode codes)"

definition uniqueString :: "(nat \<Rightarrow> nat list) \<Rightarrow> nat \<Rightarrow> nat list" where
  "uniqueString randomBytes len =
     (if len = 0 then []
      else uniqueStringFrom (randomBytes (byteLength len)) len)"

text \<open>The two character classes of the identifier, on code units.\<close>

definition isLetter :: "nat \<Rightarrow> bool" where
  "isLetter c = ((65 \<le> c \<and> c \<le> 90) \<or> (97 \<le> c \<and> c \<le> 122))"

definition isAlphanumeric :: "nat \<Rightarrow> bool" where
  "isAlphanumeric c = (isLetter c \<or> (48 \<le> c \<and> c \<le> 57))"

text \<open>A fixed stand-in for the random source: bytes that follow no simple pattern.\<close>

definition sampleBytes :: "nat \<Rightarrow> nat list" where
  "sampleBytes n = map (\<lambda>i. (89 * i + 57) mod 256) [0..<n]"

text \<open>
  A number is at least \<open>2 ^ k\<close> when it is \<^verbatim>\<open>Infinity\<close> or a finite number of that
  size; used to follow the accumulated number through the fold.
\<close>

definition atLeastPow :: "nat \<Rightarrow> number \<Rightarrow> bool" where
  "atLeastPow k a = (case a of Finite v \<Rightarrow> 2 ^ k \<le> v | Infinity \<Rightarrow> True | NaN \<Rightarrow> False)"

section \<open>Decimal numerals\<close>

text \<open>
  Facts about the decimal representation of a number, used where a count or an exit
  status is printed and read back.
\<close>

lemma of_char_digit: "(d::nat) < 10 \<Longrightarrow> (of_char (char_of (48 + d)) :: nat) = 48 + d"
proof -
  assume "d < 10"
  then have "(48 + d) mod 256 = 48 + d" by simp
  then show ?thesis by simp
qed

lemma showNat_snoc: "\<not> n < 10 \<Longrightarrow> showNat n = showNat (n div 10) @ [char_of (48 + n mod 10)]"
  by (subst showNat.simps) simp

lemma showNat_single: "n < 10 \<Longrightarrow> showNat n = [char_of (48 + n)]"
  by (subst showNat.simps) simp

lemma showNat_decimal:
  "c \<in> set (showNat n) \<Longrightarrow> 48 \<le> (of_char c :: nat) \<and> (of_char c :: nat) \<le> 57"
proof (induction n rule: showNat.induct)
  case (1 n)
  show ?case
  proof (cases "n < 10")
    case True
    with "1.prems" have "c = char_of (48 + n)" by (simp add: showNat_single)
    with True of_char_digit [of n] show ?thesis by simp
  next
    case False
    from False "1.prems" have "c \<in> set (showNat (n div 10)) \<or> c = char_of (48 + n mod 10)"
      by (auto simp add: showNat_snoc)
    then show ?thesis
    proof
      assume "c \<in> set (showNat (n div 10))"
      with False "1.IH" show ?thesis by simp
    next
      assume "c = char_of (48 + n mod 10)"
      with of_char_digit [of "n mod 10"] show ?thesis by simp
    qed
  qed
qed

lemma showNat_nonempty: "showNat n \<noteq> []"
  by (subst showNat.simps) simp

lemma showNat_digits: "c \<in> set (showNat n) \<Longrightarrow> \<not> isWhiteSpace c"
  using showNat_decimal [of c n] by (auto simp add: isWhiteSpace_def)

section \<open>The shape of the command line\<close>

lemma meaningful_not_null:
  "f \<noteq> Null \<Longrightarrow> meaningful f = Inr (case f of Defined s \<Rightarrow> 1 < length s | _ \<Rightarrow> False)"
  by (cases f) simp_all

lemma guarded_field:
  "(if (case f of Defined s \<Rightarrow> 1 < length s | _ \<Rightarrow> False) then flag @ template f else []) =
   fieldPart flag f"
  by (cases f) (simp_all add: fieldPart_def)



lemma args_case:
  "(case ao of Some a \<Rightarrow> flag @ crossPlatformStringify S p a | None \<Rightarrow> []) = argsPart flag S p ao"
  by (simp add: argsPart_def split: option.splits)

lemma falsy_case:
  "\<not> truthy x \<Longrightarrow> (case x of Defined y \<Rightarrow> X y | Undefined \<Rightarrow> Y | Null \<Rightarrow> Y) = Y"
  by (cases x) simp_all

text \<open>
  With a tuner and without an advisor, and with an advisor alone, the function returns the
  concatenation of its segments, unless it reads a property of \<^verbatim>\<open>null\<close> on the way.
\<close>

lemma tuner_form:
  assumes "\<not> truthy advisor" and "\<not> nullField t" and "\<not> assessorRaises assessor"
  shows "getMsgDispatcherCommand S p (Defined t) assessor advisor mp mt =
     Inr (headPart mp mt @ '' --tuner_class_name '' @ template (className t) @
          argsPart '' --tuner_args '' S p (classArgs t) @
          fieldPart '' --tuner_directory '' (codeDir t) @
          fieldPart '' --tuner_class_filename '' (classFileName t) @
          assessorPart S p assessor)"
proof -
  from assms(2) have t: "codeDir t \<noteq> Null" "classFileName t \<noteq> Null"
    by (simp_all add: nullField_def)
  show ?thesis
  proof (cases assessor)
    case Undefined
    then show ?thesis
      using assms(1)
      by (simp add: getMsgDispatcherCommand_def Let_def falsy_case meaningful_not_null [OF t(1)]
            meaningful_not_null [OF t(2)] guarded_field args_case headPart_def assessorPart_def)
  next
    case Null
    with assms(3) show ?thesis by (simp add: assessorRaises_def)
  next
    case (Defined s)
    show ?thesis
    proof (cases "className s = Undefined")
      case True
      with Defined show ?thesis
        using assms(1)
        by (simp add: getMsgDispatcherCommand_def Let_def falsy_case meaningful_not_null [OF t(1)]
              meaningful_not_null [OF t(2)] guarded_field args_case headPart_def assessorPart_def)
    next
      case False
      with Defined assms(3) have s: "codeDir s \<noteq> Null" "classFileName s \<noteq> Null"
        by (simp_all add: assessorRaises_def nullField_def)
      from False Defined show ?thesis
        using assms(1)
        by (simp add: getMsgDispatcherCommand_def Let_def falsy_case meaningful_not_null [OF t(1)]
              meaningful_not_null [OF t(2)] meaningful_not_null [OF s(1)]
              meaningful_not_null [OF s(2)] guarded_field args_case headPart_def assessorPart_def)
    qed
  qed
qed

lemma tuner_null_field:
  assumes "\<not> truthy advisor" and "nullField t"
  shows "getMsgDispatcherCommand S p (Defined t) assessor advisor mp mt =
           Inl (cannotRead ''length'' ''null'')"
proof (cases "codeDir t = Null")
  case True
  then show ?thesis
    using assms(1) by (simp add: getMsgDispatcherCommand_def Let_def falsy_case)
next
  case False
  with assms(2) have f: "classFileName t = Null" by (simp add: nullField_def)
  show ?thesis
    using assms(1)
    by (simp add: getMsgDispatcherCommand_def Let_def falsy_case meaningful_not_null [OF False] f)
qed

lemma assessor_null_field:
  assumes "\<not> truthy advisor" and "\<not> nullField t" and "assessorRaises assessor"
  shows "getMsgDispatcherCommand S p (Defined t) assessor advisor mp mt =
           Inl (if assessor = Null then cannotRead ''className'' ''null''
                else cannotRead ''length'' ''null'')"
proof -
  from assms(2) have t: "codeDir t \<noteq> Null" "classFileName t \<noteq> Null"
    by (simp_all add: nullField_def)
  show ?thesis
  proof (cases assessor)
    case Undefined
    with assms(3) show ?thesis by (simp add: assessorRaises_def)
  next
    case Null
    then show ?thesis
      using assms(1)
      by (simp add: getMsgDispatcherCommand_def Let_def falsy_case meaningful_not_null [OF t(1)]
            meaningful_not_null [OF t(2)])
  next
    case (Defined s)
    with assms(3) have n: "className s \<noteq> Undefined" and s: "nullField s"
      by (simp_all add: assessorRaises_def)
    show ?thesis
    proof (cases "codeDir s = Null")
      case True
      with Defined n show ?thesis
        using assms(1)
        by (simp add: getMsgDispatcherCommand_def Let_def falsy_case meaningful_not_null [OF t(1)]
              meaningful_not_null [OF t(2)])
    next
      case False
      with s have f: "classFileName s = Null" by (simp add: nullField_def)
      from Defined n show ?thesis
        using assms(1)
        by (simp add: getMsgDispatcherCommand_def Let_def falsy_case meaningful_not_null [OF t(1)]
              meaningful_not_null [OF t(2)] meaningful_not_null [OF False] f)
    qed
  qed
qed

lemma tuner_raises:
  assumes "\<not> truthy advisor" and "nullField t \<or> assessorRaises assessor"
  shows "getMsgDispatcherCommand S p (Defined t) assessor advisor mp mt =
           Inl (if \<not> nullField t \<and> assessor = Null then cannotRead ''className'' ''null''
                else cannotRead ''length'' ''null'')"
proof (cases "nullField t")
  case True
  with assms(1) show ?thesis by (simp add: tuner_null_field)
next
  case False
  with assms show ?thesis by (simp add: assessor_null_field)
qed

lemma advisor_form:
  assumes "\<not> truthy tuner" and "\<not> truthy assessor" and "\<not> nullField a"
  shows "getMsgDispatcherCommand S p tuner assessor (Defined a) mp mt =
     Inr (headPart mp mt @ '' --advisor_class_name '' @ template (className a) @
          argsPart '' --advisor_args '' S p (classArgs a) @
          fieldPart '' --advisor_directory '' (codeDir a) @
          fieldPart '' --advisor_class_filename '' (classFileName a))"
proof -
  from assms(3) have a: "codeDir a \<noteq> Null" "classFileName a \<noteq> Null"
    by (simp_all add: nullField_def)
  show ?thesis
    using assms(1,2)
    by (simp add: getMsgDispatcherCommand_def Let_def meaningful_not_null [OF a(1)]
          meaningful_not_null [OF a(2)] guarded_field args_case headPart_def)
qed

lemma advisor_raises:
  assumes "\<not> truthy tuner" and "\<not> truthy assessor" and "nullField a"
  shows "getMsgDispatcherCommand S p tuner assessor (Defined a) mp mt =
           Inl (cannotRead ''length'' ''null'')"
proof (cases "codeDir a = Null")
  case True
  then show ?thesis
    using assms(1,2) by (simp add: getMsgDispatcherCommand_def Let_def)
next
  case False
  with assms(3) have f: "classFileName a = Null" by (simp add: nullField_def)
  show ?thesis
    using assms(1,2)
    by (simp add: getMsgDispatcherCommand_def Let_def meaningful_not_null [OF False] f)
qed














section \<open>Validation of the dispatcher description\<close>

text \<open>
  C3. \<^verbatim>\<open>getMsgDispatcherCommand\<close> raises the configuration error exactly when an advisor
  comes together with a tuner or an assessor, or when neither a tuner nor an advisor is
  given, where \<^verbatim>\<open>undefined\<close> and \<^verbatim>\<open>null\<close> both count as not given. In the other cases
  it returns a command string, except where it reads a property of \<^verbatim>\<open>null\<close>: there it
  ends with the runtime's \<^verbatim>\<open>TypeError\<close>. The guards of the assessor group and of the
  optional fields test for \<^verbatim>\<open>undefined\<close> only, unlike the validation, which tests
  truthiness.
\<close>

theorem getMsgDispatcherCommand_validation:
  "(if (truthy advisor \<and> (truthy tuner \<or> truthy assessor)) \<or> (\<not> truthy tuner \<and> \<not> truthy advisor)
    then \<exists>m. getMsgDispatcherCommand S p tuner assessor advisor mp mt = Inl (InvalidConfiguration m)
    else if readsNull tuner assessor advisor
    then \<exists>m. getMsgDispatcherCommand S p tuner assessor advisor mp mt = Inl (TypeError m)
    else \<exists>c. getMsgDispatcherCommand S p tuner assessor advisor mp mt = Inr c)"
proof (cases "(truthy advisor \<and> (truthy tuner \<or> truthy assessor)) \<or> (\<not> truthy tuner \<and> \<not> truthy advisor)")
  case True
  then show ?thesis
    by (auto simp add: getMsgDispatcherCommand_def)
next
  case False
  show ?thesis
  proof (cases "truthy advisor")
    case True
    then obtain a where a: "advisor = Defined a" by (cases advisor) simp_all
    from True False have f: "\<not> truthy tuner" "\<not> truthy assessor" by auto
    show ?thesis
      using False a advisor_form [OF f, of a S p mp mt] advisor_raises [OF f, of a S p mp mt]
      by (auto simp add: readsNull_def cannotRead_def)
  next
    case adv: False
    with False obtain t where t: "tuner = Defined t" by (cases tuner) simp_all
    have r: "readsNull tuner assessor advisor = (nullField t \<or> assessorRaises assessor)"
      using adv t by (cases advisor) (simp_all add: readsNull_def)
    show ?thesis
      using False t r tuner_form [OF adv, of t assessor S p mp mt]
        tuner_raises [OF adv, of t assessor S p mp mt]
      by (auto simp add: cannotRead_def)
  qed
qed

theorem getMsgDispatcherCommand_validation_witness:
  "(\<exists>m. getMsgDispatcherCommand JSON_stringify ''linux'' (Defined evolutionTuner) Undefined
           (Defined bestTuner) False False = Inl (InvalidConfiguration m)) \<and>
   (\<exists>m. getMsgDispatcherCommand JSON_stringify ''linux'' Undefined Null Null False False
          = Inl (InvalidConfiguration m)) \<and>
   (\<exists>c. getMsgDispatcherCommand JSON_stringify ''linux'' (Defined evolutionTuner) Undefined Undefined
           False False = Inr c) \<and>
   (\<exists>m. getMsgDispatcherCommand JSON_stringify ''linux'' (Defined evolutionTuner) Null Undefined
           False False = Inl (TypeError m)) \<and>
   (\<exists>m. getMsgDispatcherCommand JSON_stringify ''linux'' Undefined Undefined
           (Defined (bestTuner\<lparr>codeDir := Null\<rparr>)) False False = Inl (TypeError m))"
  using getMsgDispatcherCommand_validation [where tuner = "Defined evolutionTuner"
          and assessor = Undefined and advisor = "Defined bestTuner" and S = JSON_stringify
          and p = "''linux''" and mp = False and mt = False]
        getMsgDispatcherCommand_validation [where tuner = Undefined and assessor = Null
          and advisor = Null and S = JSON_stringify and p = "''linux''" and mp = False and mt = False]
        getMsgDispatcherCommand_validation [where tuner = "Defined evolutionTuner"
          and assessor = Undefined and advisor = Undefined and S = JSON_stringify
          and p = "''linux''" and mp = False and mt = False]
        getMsgDispatcherCommand_validation [where tuner = "Defined evolutionTuner"
          and assessor = Null and advisor = Undefined and S = JSON_stringify
          and p = "''linux''" and mp = False and mt = False]
        getMsgDispatcherCommand_validation [where tuner = Undefined
          and assessor = Undefined and advisor = "Defined (bestTuner\<lparr>codeDir := Null\<rparr>)"
          and S = JSON_stringify and p = "''linux''" and mp = False and mt = False]
  by (simp add: readsNull_def nullField_def assessorRaises_def evolutionTuner_def)

text \<open>
  The call with a tuner and a \<^verbatim>\<open>null\<close> assessor, evaluated: the guard
  \<^verbatim>\<open>assessor !== undefined\<close> lets \<^verbatim>\<open>null\<close> through, and the class name is read of it.
\<close>

lemma null_assessor_example:
  "getMsgDispatcherCommand JSON_stringify ''linux'' (Defined plainTuner) Null Undefined False False =
     Inl (TypeError ''Cannot read property className of null'')"
  by (simp add: getMsgDispatcherCommand_def plainTuner_def cannotRead_def)

section \<open>Encoding of argument payloads\<close>



text \<open>The two encodings of the same payload, written out.\<close>

lemma encodings_example:
  "crossPlatformStringify JSON_stringify ''win32'' (JObject [(''optimize_mode'', JString ''maximize'')])
     = [CHR ''{'', CHR 0x22] @ ''optimize_mode'' @ [CHR 0x22, CHR '':'', CHR 0x22] @ ''maximize'' @ [CHR 0x22, CHR ''}'']"
  "crossPlatformStringify JSON_stringify ''linux'' (JObject [(''optimize_mode'', JString ''maximize'')])
     = [CHR 0x22, CHR ''{'', CHR 0x5C, CHR 0x22] @ ''optimize_mode'' @ [CHR 0x5C, CHR 0x22, CHR '':'', CHR 0x5C, CHR 0x22] @ ''maximize''
        @ [CHR 0x5C, CHR 0x22, CHR ''}'', CHR 0x22]"
  by (simp_all add: crossPlatformStringify_def quoteJSONString_def quoteChar_def)

section \<open>Optional fields\<close>





section \<open>Spawning the dispatcher process\<close>

subsection \<open>Splitting and joining\<close>

lemma splitAux_nonempty: "splitAux sep cur s \<noteq> []"
  by (induction sep cur s rule: splitAux.induct) auto

lemma joinWith_Cons: "ys \<noteq> [] \<Longrightarrow> joinWith sep (x # ys) = x @ sep @ joinWith sep ys"
  by (cases ys) auto

lemma joinWith_splitAux:
  "old \<noteq> [] \<Longrightarrow> joinWith new (splitAux old cur s) = cur @ replaceAll old new s"
proof (induction old cur s rule: splitAux.induct)
  case (1 sep cur)
  then show ?case by simp
next
  case (2 sep cur c cs)
  then show ?case
    by (simp add: joinWith_Cons splitAux_nonempty del: joinWith.simps)
qed

lemma split_join_replaceAll:
  "old \<noteq> [] \<Longrightarrow> joinWith new (js_split old s) = replaceAll old new s"
  by (simp add: js_split_def joinWith_splitAux)

lemma splitAux_char_nosep:
  "x \<notin> set s \<Longrightarrow> splitAux [x] cur s = [cur @ s]"
  by (induction s arbitrary: cur) auto

lemma splitAux_char:
  "x \<in> set s \<Longrightarrow>
   splitAux [x] cur s = (cur @ takeWhile (\<lambda>c. c \<noteq> x) s) # splitAux [x] [] (drop (Suc (length (takeWhile (\<lambda>c. c \<noteq> x) s))) s)"
proof (induction s arbitrary: cur)
  case Nil
  then show ?case by simp
next
  case (Cons a s)
  show ?case
  proof (cases "a = x")
    case True
    then show ?thesis by simp
  next
    case False
    with Cons.prems have "x \<in> set s" by simp
    from Cons.IH [OF this, of "cur @ [a]"] False show ?thesis by simp
  qed
qed


lemma js_split_space:
  assumes "CHR '' '' \<in> set c"
  shows "js_split '' '' c =
           takeWhile (\<lambda>x. x \<noteq> CHR '' '') c #
           js_split '' '' (drop (length (takeWhile (\<lambda>x. x \<noteq> CHR '' '') c) + 1) c)"
  using splitAux_char [OF assms, of "[]"] by (simp add: js_split_def)

subsection \<open>What the two branches spawn\<close>

text \<open>
  C7, as amended. On \<^verbatim>\<open>win32\<close> every occurrence of \<^verbatim>\<open>python3\<close> is replaced by
  \<^verbatim>\<open>python\<close>, and the result is cut at single space characters: when it contains a
  space, the executable followed by the argument list is the list of pieces that
  \<^verbatim>\<open>split(" ")\<close> yields (empty pieces included), and no shell is requested. On every
  other platform the whole command is spawned as one string, with no arguments, through
  a shell.
\<close>

theorem getTunerProc_spawn:
  "(CHR '' '' \<in> set (replaceAll ''python3'' ''python'' command) \<longrightarrow>
      (\<exists>exe rest.
         getTunerProc ''win32'' command io dir e =
           Inr \<lparr>executable = exe, arguments = rest,
                options = \<lparr>stdio = io, cwd = dir, env = e, shell = False\<rparr>\<rparr> \<and>
         exe # rest = js_split '' '' (replaceAll ''python3'' ''python'' command))) \<and>
   (p \<noteq> ''win32'' \<longrightarrow>
      getTunerProc p command io dir e =
        Inr \<lparr>executable = command, arguments = [],
             options = \<lparr>stdio = io, cwd = dir, env = e, shell = True\<rparr>\<rparr>)"
proof (intro conjI impI)
  let ?c = "replaceAll ''python3'' ''python'' command"
  let ?exe = "takeWhile (\<lambda>x. x \<noteq> CHR '' '') ?c"
  assume sp: "CHR '' '' \<in> set ?c"
  have c: "joinWith ''python'' (js_split ''python3'' command) = ?c"
    by (rule split_join_replaceAll) simp
  have pieces: "js_split '' '' ?c = ?exe # js_split '' '' (drop (length ?exe + 1) ?c)"
    by (rule js_split_space [OF sp])
  have "getTunerProc ''win32'' command io dir e =
          Inr \<lparr>executable = ?exe, arguments = js_split '' '' (drop (length ?exe + 1) ?c),
               options = \<lparr>stdio = io, cwd = dir, env = e, shell = False\<rparr>\<rparr>"
    unfolding getTunerProc_def c Let_def by (subst pieces) simp
  with pieces show "\<exists>exe rest.
         getTunerProc ''win32'' command io dir e =
           Inr \<lparr>executable = exe, arguments = rest,
                options = \<lparr>stdio = io, cwd = dir, env = e, shell = False\<rparr>\<rparr> \<and>
         exe # rest = js_split '' '' ?c"
    by simp
next
  assume "p \<noteq> ''win32''"
  then show "getTunerProc p command io dir e =
        Inr \<lparr>executable = command, arguments = [],
             options = \<lparr>stdio = io, cwd = dir, env = e, shell = True\<rparr>\<rparr>"
    by (simp add: getTunerProc_def)
qed

lemma replaceAll_example:
  "replaceAll ''python3'' ''python'' ''python3 -m nni --tuner_class_name EvolutionTuner'' =
     ''python -m nni --tuner_class_name EvolutionTuner''"
  by simp

lemma js_split_example:
  "js_split '' '' ''python -m nni --tuner_class_name EvolutionTuner'' =
     [''python'', ''-m'', ''nni'', ''--tuner_class_name'', ''EvolutionTuner'']"
  by (simp add: js_split_def)

theorem getTunerProc_spawn_witness:
  "CHR '' '' \<in> set (replaceAll ''python3'' ''python'' ''python3 -m nni --tuner_class_name EvolutionTuner'') \<and>
   (\<exists>exe rest.
      getTunerProc ''win32'' ''python3 -m nni --tuner_class_name EvolutionTuner'' () ''/tmp'' () =
        Inr \<lparr>executable = exe, arguments = rest,
             options = \<lparr>stdio = (), cwd = ''/tmp'', env = (), shell = False\<rparr>\<rparr> \<and>
      exe # rest = [''python'', ''-m'', ''nni'', ''--tuner_class_name'', ''EvolutionTuner'']) \<and>
   ''linux'' \<noteq> ''win32'' \<and>
   getTunerProc ''linux'' ''python3 -m nni --tuner_class_name EvolutionTuner'' () ''/tmp'' () =
     Inr \<lparr>executable = ''python3 -m nni --tuner_class_name EvolutionTuner'', arguments = [],
          options = \<lparr>stdio = (), cwd = ''/tmp'', env = (), shell = True\<rparr>\<rparr>"
proof -
  have sp: "CHR '' '' \<in> set (replaceAll ''python3'' ''python'' ''python3 -m nni --tuner_class_name EvolutionTuner'')"
    by (simp only: replaceAll_example) simp
  have ne: "''linux'' \<noteq> ''win32''" by simp
  show ?thesis
    using sp ne
      getTunerProc_spawn [where command = "''python3 -m nni --tuner_class_name EvolutionTuner''"
        and io = "()" and dir = "''/tmp''" and e = "()" and p = "''linux''"]
    by (simp only: replaceAll_example js_split_example) simp
qed

text \<open>
  C7 as stated speaks of whitespace-delimited tokens. The code cuts at the space character
  only, so a tab stays inside the executable; and a command without any space is spawned
  with one empty argument instead of none.
\<close>

theorem getTunerProc_tokens_counterexample:
  "getTunerProc ''win32'' (''python3'' @ [CHR 0x09] @ ''-m nni'') () ''/tmp'' () =
     Inr \<lparr>executable = ''python'' @ [CHR 0x09] @ ''-m'', arguments = [''nni''],
          options = \<lparr>stdio = (), cwd = ''/tmp'', env = (), shell = False\<rparr>\<rparr> \<and>
   getTunerProc ''win32'' ''python3'' () ''/tmp'' () =
     Inr \<lparr>executable = ''python'', arguments = [[]],
          options = \<lparr>stdio = (), cwd = ''/tmp'', env = (), shell = False\<rparr>\<rparr>"
  by (simp add: getTunerProc_def js_split_def)

section \<open>Terminating a process\<close>

text \<open>
  C2. The claim is that the promise returned by \<^verbatim>\<open>killPid\<close> completes once the signal
  has been issued. In the code the \<^verbatim>\<open>Deferred\<close> whose promise is returned is never
  resolved, so the returned promise stays pending whatever the command does: it is never
  rejected, and it is never fulfilled either.
\<close>

theorem killPid_never_settles: "killPid exec pid = Pending"
  by (simp add: killPid_def newDeferred_def Let_def split: promise.splits)

theorem killPid_example:
  "killPid killSucceeds 4242 = Pending \<and> killPid killNoSuchProcess 4242 = Pending"
  by (simp add: killPid_never_settles)

text \<open>
  The sibling \<^verbatim>\<open>isAlive\<close> settles as soon as its command has settled, with the answer.
\<close>

lemma isAlive_settles:
  assumes "p \<noteq> ''win32''" and "snd (exec (''kill -0 '' @ showNat pid)) \<noteq> Pending"
  shows "isAlive p execSync exec pid =
           Fulfilled (case snd (exec (''kill -0 '' @ showNat pid)) of
                        Fulfilled r \<Rightarrow> True | _ \<Rightarrow> False)"
  using assms
  by (simp add: isAlive_def newDeferred_def resolve_def Let_def split: promise.splits)

section \<open>Counting files\<close>

subsection \<open>Reading back a printed count\<close>

lemma parseDigits_decimal:
  assumes "\<And>c. c \<in> set s \<Longrightarrow> 48 \<le> (of_char c :: nat) \<and> (of_char c :: nat) \<le> 57"
  shows "parseDigits 10 (s @ r) = map (\<lambda>c. of_char c - 48) s @ parseDigits 10 r"
  using assms
proof (induction s)
  case Nil
  then show ?case by simp
next
  case (Cons c s)
  from Cons.prems [of c] have c: "48 \<le> (of_char c :: nat)" "(of_char c :: nat) \<le> 57" by simp_all
  from Cons.IH Cons.prems have "parseDigits 10 (s @ r) = map (\<lambda>c. of_char c - 48) s @ parseDigits 10 r"
    by simp
  with c show ?case by (simp add: digitValue_def Let_def)
qed

lemma showNat_value:
  "foldl (\<lambda>a d. a * 10 + d) a (map (\<lambda>c. of_char c - 48) (showNat n)) = a * 10 ^ length (showNat n) + n"
proof (induction n arbitrary: a rule: showNat.induct)
  case (1 n)
  show ?case
  proof (cases "n < 10")
    case True
    with of_char_digit [of n] show ?thesis by (simp add: showNat_single)
  next
    case False
    have last: "(of_char (char_of (48 + n mod 10)) :: nat) - 48 = n mod 10"
      using of_char_digit [of "n mod 10"] by simp
    have "foldl (\<lambda>a d. a * 10 + d) a (map (\<lambda>c. of_char c - 48) (showNat n)) =
          (a * 10 ^ length (showNat (n div 10)) + n div 10) * 10 + n mod 10"
      using False "1.IH" [of a] by (simp add: showNat_snoc [OF False] last)
    also have "\<dots> = a * 10 ^ length (showNat n) + n"
      by (simp add: showNat_snoc [OF False] algebra_simps)
    finally show ?thesis .
  qed
qed

lemma parseInt_showNat: "parseInt (showNat n @ [CHR 0x0A]) = Some (int n)"
proof -
  obtain d ds where s: "showNat n = d # ds"
    using showNat_nonempty [of n] by (cases "showNat n") auto
  have dd: "48 \<le> (of_char d :: nat)" "(of_char d :: nat) \<le> 57"
    using showNat_decimal [of d n] s by simp_all
  have ws: "\<not> isWhiteSpace d" using dd by (auto simp add: isWhiteSpace_def)
  have sign: "d \<noteq> CHR ''-''" "d \<noteq> CHR ''+''" using dd by auto
  have x: "hd (ds @ [CHR 0x0A]) \<noteq> CHR ''x''" "hd (ds @ [CHR 0x0A]) \<noteq> CHR ''X''"
  proof -
    have "hd (ds @ [CHR 0x0A]) \<noteq> CHR ''x'' \<and> hd (ds @ [CHR 0x0A]) \<noteq> CHR ''X''"
    proof (cases ds)
      case Nil
      then show ?thesis by simp
    next
      case (Cons e es)
      then have "e \<in> set (showNat n)" using s by simp
      then have "48 \<le> (of_char e :: nat) \<and> (of_char e :: nat) \<le> 57" by (rule showNat_decimal)
      then show ?thesis using Cons by auto
    qed
    then show "hd (ds @ [CHR 0x0A]) \<noteq> CHR ''x''" "hd (ds @ [CHR 0x0A]) \<noteq> CHR ''X''" by simp_all
  qed
  have nohex: "take 2 (showNat n @ [CHR 0x0A]) \<noteq> ''0x''" "take 2 (showNat n @ [CHR 0x0A]) \<noteq> ''0X''"
    using x by (cases ds; simp add: s)+
  have digits: "parseDigits 10 (showNat n @ [CHR 0x0A]) = map (\<lambda>c. of_char c - 48) (showNat n)"
    using parseDigits_decimal [of "showNat n" "[CHR 0x0A]"] showNat_decimal [of _ n]
    by (simp add: digitValue_def)
  have val: "foldl (\<lambda>a d. a * 10 + d) 0 (map (\<lambda>c. of_char c - 48) (showNat n)) = n"
    using showNat_value [of 0 n] by simp
  have ne: "map (\<lambda>c. of_char c - 48) (showNat n) \<noteq> []" by (simp add: s)
  have dw: "dropWhile isWhiteSpace (showNat n @ [CHR 0x0A]) = showNat n @ [CHR 0x0A]"
    using ws by (simp add: s)
  have t1: "take 1 (showNat n @ [CHR 0x0A]) = [d]" by (simp add: s)
  show ?thesis
    unfolding parseInt_def dw Let_def t1
    using sign nohex digits val ne by simp
qed

subsection \<open>The count that is returned\<close>

text \<open>
  C5. The claim is that the count reported by the enumeration command is returned, 0 for
  a directory without regular files. When the command prints the count \<open>n\<close> in time,
  the code returns \<open>n\<close> for every \<open>n\<close> but 0: the count 0 is falsy, and the initial
  value \<open>-1\<close> is returned instead.
\<close>

theorem countFilesRecursively_count:
  assumes "existsSync directory"
    and "exec (''find '' @ directory @ '' -type f | wc -l'') = (t, Fulfilled r)"
    and "t < 5000"
    and "stdout r = showNat n @ [CHR 0x0A]"
  shows "countFilesRecursively existsSync exec directory =
           Inr (Fulfilled (if n = 0 then - 1 else int n))"
  using assms
  by (simp add: countFilesRecursively_def fileCountOf_def parseInt_showNat)

theorem countFilesRecursively_count_witness:
  "countFilesRecursively everyDirExists (wcPrints 0) ''/tmp/empty'' = Inr (Fulfilled (- 1)) \<and>
   countFilesRecursively everyDirExists (wcPrints 4) ''/tmp/four'' = Inr (Fulfilled 4)"
  using countFilesRecursively_count [of everyDirExists "''/tmp/empty''" "wcPrints 0" 12
          "\<lparr>stdout = showNat 0 @ [CHR 0x0A], stderr = []\<rparr>" 0]
        countFilesRecursively_count [of everyDirExists "''/tmp/four''" "wcPrints 4" 12
          "\<lparr>stdout = showNat 4 @ [CHR 0x0A], stderr = []\<rparr>" 4]
  by (simp add: everyDirExists_def wcPrints_def)

text \<open>
  C9. The call fails with the error for a missing directory exactly when the directory
  does not exist at the time of the call. When it exists the call returns a promise, and
  that promise is not rejected with this error either.
\<close>

theorem countFilesRecursively_NotFound_iff:
  "(if existsSync directory
    then \<exists>pr. countFilesRecursively existsSync exec directory = Inr pr \<and>
              (\<forall>m. pr \<noteq> Rejected (NotFound m))
    else \<exists>m. countFilesRecursively existsSync exec directory = Inl (NotFound m))"
  by (simp add: countFilesRecursively_def split: prod.splits promise.splits)

theorem countFilesRecursively_NotFound_iff_witness:
  "(\<exists>pr. countFilesRecursively everyDirExists (wcPrints 4) ''/tmp/four'' = Inr pr \<and>
              (\<forall>m. pr \<noteq> Rejected (NotFound m))) \<and>
   (\<exists>m. countFilesRecursively noDirExists (wcPrints 4) ''/tmp/four'' = Inl (NotFound m))"
  using countFilesRecursively_NotFound_iff [of everyDirExists "''/tmp/four''" "wcPrints 4"]
        countFilesRecursively_NotFound_iff [of noDirExists "''/tmp/four''" "wcPrints 4"]
  by (simp add: everyDirExists_def noDirExists_def)

section \<open>The cached network address\<close>

lemma getIPV4Address_cached:
  "a \<noteq> [] \<Longrightarrow> getIPV4Address eth0 a = (Inr a, a)"
  by (simp add: getIPV4Address_def)

lemma getIPV4Address_caches:
  assumes "getIPV4Address eth0 cached = (Inr a, cached')"
  shows "cached' = a"
  using assms
  by (auto simp: getIPV4Address_def split: if_splits option.splits)

lemma getIPV4Addresses_cached:
  "a \<noteq> [] \<Longrightarrow> getIPV4Addresses snaps a = (replicate (length snaps) (Inr a), a)"
  by (induction snaps) (simp_all add: getIPV4Address_cached)

lemma getIPV4Address_empty:
  "getIPV4Address eth0 cached = (Inr [], cached') \<longleftrightarrow>
     cached = [] \<and> cached' = [] \<and> (\<exists>items. eth0 = Some items \<and> firstIPv4 items = Some [])"
  by (auto simp: getIPV4Address_def split: if_splits option.splits)

text \<open>
  C10, as amended. After a successful call that returned a non-empty address \<open>a\<close>, the
  cache holds \<open>a\<close>, and every later call returns \<open>a\<close> and leaves the cache as it is,
  whatever the interfaces look like by then: the interfaces are not consulted. A
  successful call returns the empty string exactly when nothing is cached and the first
  entry of family \<^verbatim>\<open>IPv4\<close> carries an empty address; the cache is empty afterwards, so
  the next call inspects the interfaces again.
\<close>

theorem getIPV4Address_memoized:
  "(getIPV4Address eth0 cached = (Inr a, cached') \<and> a \<noteq> [] \<longrightarrow>
      cached' = a \<and>
      getIPV4Address eth0' cached' = (Inr a, cached') \<and>
      getIPV4Addresses snaps cached' = (replicate (length snaps) (Inr a), cached')) \<and>
   (getIPV4Address eth0 cached = (Inr [], cached') \<longleftrightarrow>
      cached = [] \<and> cached' = [] \<and> (\<exists>items. eth0 = Some items \<and> firstIPv4 items = Some []))"
proof -
  have memo: "cached' = a \<and>
      getIPV4Address eth0' cached' = (Inr a, cached') \<and>
      getIPV4Addresses snaps cached' = (replicate (length snaps) (Inr a), cached')"
    if h: "getIPV4Address eth0 cached = (Inr a, cached') \<and> a \<noteq> []"
  proof -
    have c: "cached' = a"
      using h getIPV4Address_caches [of eth0 cached a cached'] by simp
    with h show ?thesis
      by (simp add: getIPV4Address_cached getIPV4Addresses_cached)
  qed
  show ?thesis
    using memo getIPV4Address_empty [of eth0 cached cached'] by blast
qed

theorem getIPV4Address_memoized_witness:
  "getIPV4Address exampleEth0 [] = (Inr ''10.0.0.4'', ''10.0.0.4'') \<and> ''10.0.0.4'' \<noteq> [] \<and>
   getIPV4Address None ''10.0.0.4'' = (Inr ''10.0.0.4'', ''10.0.0.4'') \<and>
   getIPV4Addresses [None, Some [], exampleEth0, blankEth0] ''10.0.0.4'' =
     ([Inr ''10.0.0.4'', Inr ''10.0.0.4'', Inr ''10.0.0.4'', Inr ''10.0.0.4''], ''10.0.0.4'')"
proof -
  have c: "getIPV4Address exampleEth0 [] = (Inr ''10.0.0.4'', ''10.0.0.4'')"
    by (simp add: getIPV4Address_def exampleEth0_def)
  show ?thesis
    using c getIPV4Address_memoized [of exampleEth0 "[]" "''10.0.0.4''" "''10.0.0.4''" None
        "[None, Some [], exampleEth0, blankEth0]"]
    by (simp del: getIPV4Addresses.simps)
qed

text \<open>
  C10 as stated does not hold: the address of the entry is returned unchecked. With an
  empty address listed first, the call succeeds with the empty string, and the call
  after it reads the interfaces again and returns another address.
\<close>

theorem getIPV4Address_empty_counterexample:
  "getIPV4Address blankEth0 [] = (Inr [], []) \<and>
   getIPV4Addresses [blankEth0, exampleEth0] [] = ([Inr [], Inr ''10.0.0.4''], ''10.0.0.4'')"
  by (simp add: getIPV4Address_def blankEth0_def exampleEth0_def)

section \<open>The launcher script\<close>

subsection \<open>Lines that write nothing\<close>

lemma startsWith_simps:
  "startsWith [] s = True"
  "startsWith (a # p) [] = False"
  "startsWith (a # p) (c # s) = (a = c \<and> startsWith p s)"
  by (auto simp add: startsWith_def)

lemma endsWith_append: "endsWith p (a @ p)"
  by (simp add: endsWith_def)

lemma endsWith_Cons: "endsWith p s \<Longrightarrow> endsWith p (c # s)"
  by (auto simp add: endsWith_def Suc_diff_le)

lemma ps_quiet:
  assumes "\<And>l st. l \<in> set ls \<Longrightarrow> psLine ok now st l = st"
  shows "foldl (psLine ok now) st ls = st"
  using assms by (induction ls arbitrary: st) simp_all

lemma ps_inert:
  "psLine ok now st (CHR ''c'' # rest) = st"
  "psLine ok now st (CHR ''$'' # CHR ''e'' # rest) = st"
  "psLine ok now st (CHR ''I'' # rest) = st"
  by (simp_all add: psLine_def startsWith_simps)

lemma ps_env_quiet:
  \<open>foldl (psLine ok now) st
       (map (\<lambda>variable. ''$env:'' @ key variable @ ''="'' @ val variable @ ''"'') vars) = st\<close>
  by (rule ps_quiet) (auto simp add: ps_inert)

lemma ps_write_line:
  \<open>psLine ok now st (''Write $state " " $NOW_DATE  | Out-File '' @ path @ '' -NoNewline -encoding utf8'')
     = st\<lparr>written := (path, showNat (stateVar st) @ '' '' @ nowDate st) # written st\<rparr>\<close>
proof -
  have e: \<open>endsWith '' -NoNewline -encoding utf8''
            (''Write $state " " $NOW_DATE  | Out-File '' @ path @ '' -NoNewline -encoding utf8'')\<close>
    using endsWith_append [of "'' -NoNewline -encoding utf8''" "''Write $state \" \" $NOW_DATE  | Out-File '' @ path"]
    by simp
  show ?thesis
    using e by (simp add: psLine_def startsWith_simps)
qed


lemma ps_fixed_lines:
  \<open>foldl (psLine ok now) \<lparr>stateVar = 0, nowDate = [], written = []\<rparr>
       [''$NOW_DATE = [int64](([datetime]::UtcNow)-(get-date "1/1/1970")).TotalSeconds'',
        ''$NOW_DATE = "$NOW_DATE" + "000"'',
        ''$state = 0'',
        ''if($?){$state = 0}'',
        ''else{$state = 2}''] =
       \<lparr>stateVar = (if ok then 0 else 2), nowDate = showNat now @ ''000'', written = []\<rparr>\<close>
  by (simp add: psLine_def)

lemma showNat_0_2: "showNat 0 = ''0''" "showNat 2 = ''2''"
  by (simp_all add: showNat.simps char_of_eq_iff)

lemma runPowerShell_launcher:
  "runPowerShell ok now (runScriptLines pj ''win32'' cfg wd vars) =
     [(pj [wd, ''.nni'', ''state''], (if ok then ''0'' else ''2'') @ '' '' @ showNat now @ ''000'')]"
proof -
  let ?init = "\<lparr>stateVar = 0, nowDate = [], written = []\<rparr>"
  let ?mid = "\<lparr>stateVar = (if ok then 0 else 2), nowDate = showNat now @ ''000'', written = []\<rparr>"
  have "foldl (psLine ok now) ?init (runScriptLines pj ''win32'' cfg wd vars) =
        psLine ok now ?mid
          (''Write $state \" \" $NOW_DATE  | Out-File '' @ pj [wd, ''.nni'', ''state''] @
           '' -NoNewline -encoding utf8'')"
    using ps_env_quiet [of ok now ?init vars] ps_fixed_lines [of ok now]
    by (simp add: runScriptLines_def ps_inert)
  also have "\<dots> = ?mid\<lparr>written := [(pj [wd, ''.nni'', ''state''],
                 showNat (stateVar ?mid) @ '' '' @ nowDate ?mid)]\<rparr>"
    by (subst ps_write_line) simp
  finally show ?thesis
    by (simp add: runPowerShell_def showNat_0_2)
qed


lemma bash_quiet:
  assumes "\<And>l. l \<in> set ls \<Longrightarrow>
             \<not> startsWith ''eval '' l \<and> \<not> startsWith ''echo $? `date +%s000` >'' l"
  shows "snd (foldl (bashLine rc now) st ls) = snd st"
  using assms by (induction ls arbitrary: st) (simp_all add: bashLine_def)

lemma runBash_launcher:
  assumes "p \<noteq> ''win32''"
  shows "runBash rc now (runScriptLines pj p cfg wd vars) =
     [(pj [wd, ''.nni'', ''state''], showNat rc @ '' '' @ showNat now @ ''000'' @ [CHR 0x0A])]"
proof -
  have quiet: "snd (foldl (bashLine rc now) st
                 (map (\<lambda>variable. ''export '' @ key variable @ ''='' @ val variable) vars)) = snd st"
    for st
    by (rule bash_quiet) (auto simp add: startsWith_simps)
  show ?thesis
    using assms quiet [of "(0, [])"]
    by (simp add: runBash_def runScriptLines_def bashLine_def startsWith_simps)
qed

lemma firstField_showNat: "firstField (showNat n @ CHR '' '' # rest) = showNat n"
proof -
  obtain d ds where s: "showNat n = d # ds"
    using showNat_nonempty [of n] by (cases "showNat n") auto
  have d: "\<not> isWhiteSpace d"
    using showNat_digits [of d n] s by simp
  have a: "dropWhile isWhiteSpace (showNat n @ CHR '' '' # rest) = showNat n @ CHR '' '' # rest"
    using d by (simp add: s)
  have b: "takeWhile (\<lambda>c. \<not> isWhiteSpace c) (showNat n @ CHR '' '' # rest) = showNat n"
    using showNat_digits [of _ n]
    by (simp add: takeWhile_append2 isWhiteSpace_def)
  show ?thesis unfolding firstField_def a b by (rule refl)
qed

subsection \<open>The first field of the state file\<close>

text \<open>
  C1. The claim is that the first field of the state file is the exit status of the user
  command on both platforms. The bash launcher writes \<^verbatim>\<open>$?\<close>, which is that status
  for a command that hands control back to the shell.
  The PowerShell launcher writes \<^verbatim>\<open>$state\<close>, which is only ever assigned 0 or 2: its
  first field is \<^verbatim>\<open>0\<close> when \<^verbatim>\<open>$?\<close> is true at the \<^verbatim>\<open>if\<close> and \<^verbatim>\<open>2\<close> otherwise,
  whatever the exit status was. For a command that exits with status 3 the field is 3 on
  POSIX and never 3 on \<^verbatim>\<open>win32\<close>.
\<close>

theorem launcher_state_field:
  "(p \<noteq> ''win32'' \<longrightarrow> stateFileField pj p cfg wd vars rc ok now = Some (showNat rc)) \<and>
   stateFileField pj ''win32'' cfg wd vars rc ok now = Some (if ok then ''0'' else ''2'')"
proof (intro conjI impI)
  assume "p \<noteq> ''win32''"
  then show "stateFileField pj p cfg wd vars rc ok now = Some (showNat rc)"
    by (simp add: stateFileField_def runLauncher_def runBash_launcher firstField_showNat)
next
  have z: "firstField (CHR ''0'' # CHR '' '' # r) = ''0''"
          "firstField (CHR ''2'' # CHR '' '' # r) = ''2''" for r
    by (simp_all add: firstField_def isWhiteSpace_def)
  show "stateFileField pj ''win32'' cfg wd vars rc ok now = Some (if ok then ''0'' else ''2'')"
    by (simp add: stateFileField_def runLauncher_def runPowerShell_launcher z)
qed

theorem launcher_state_field_witness:
  "''linux'' \<noteq> ''win32'' \<and>
   stateFileField posixJoin ''linux'' mnistTrial ''/tmp/nni/trial1'' mnistVariables 3 True 1541000000 = Some ''3'' \<and>
   stateFileField win32Join ''win32'' mnistTrial ''C:/nni/trial1'' mnistVariables 3 True 1541000000 = Some ''0'' \<and>
   stateFileField win32Join ''win32'' mnistTrial ''C:/nni/trial1'' mnistVariables 3 False 1541000000 = Some ''2''"
proof -
  have three: "showNat 3 = ''3''"
    by (simp add: showNat.simps char_of_eq_iff)
  have ne: "''linux'' \<noteq> ''win32''" by simp
  show ?thesis
    using ne three
      launcher_state_field [of "''linux''" posixJoin mnistTrial "''/tmp/nni/trial1''" mnistVariables 3 True 1541000000]
      launcher_state_field [of "''linux''" win32Join mnistTrial "''C:/nni/trial1''" mnistVariables 3 True 1541000000]
      launcher_state_field [of "''linux''" win32Join mnistTrial "''C:/nni/trial1''" mnistVariables 3 False 1541000000]
    by simp
qed

section \<open>Unique identifiers\<close>

subsection \<open>Rounding keeps a number above a power of two\<close>

lemma bitLength_lower: "n \<noteq> 0 \<Longrightarrow> 2 ^ (bitLength n - 1) \<le> n"
proof (induction n rule: bitLength.induct)
  case (1 n)
  show ?case
  proof (cases "n div 2 = 0")
    case True
    with "1.prems" have "n = 1" by (cases n) auto
    then show ?thesis by (simp add: bitLength.simps [of "Suc 0"] bitLength.simps [of 0])
  next
    case False
    with "1.IH" "1.prems" have ih: "2 ^ (bitLength (n div 2) - 1) \<le> n div 2" by simp
    have pos: "0 < bitLength (n div 2)"
      using False by (simp add: bitLength.simps [of "n div 2"])
    have "bitLength n = 1 + bitLength (n div 2)"
      using "1.prems" by (simp add: bitLength.simps [of n])
    then have "(2::nat) ^ (bitLength n - 1) = 2 * 2 ^ (bitLength (n div 2) - 1)"
      using pos by (cases "bitLength (n div 2)") simp_all
    also have "\<dots> \<le> 2 * (n div 2)" using ih by simp
    also have "\<dots> \<le> n" by simp
    finally show ?thesis .
  qed
qed

lemma round53_below: "round53 n = Finite v \<Longrightarrow> v < 2 ^ 1024"
proof -
  assume a: "round53 n = Finite v"
  show ?thesis
  proof (cases "n < 2 ^ 53")
    case True
    with a have "v = n" by (simp add: round53_def)
    with True have "v < 2 ^ 53" by simp
    also have "(2::nat) ^ 53 < 2 ^ 1024" by (rule power_strict_increasing) simp_all
    finally show ?thesis .
  next
    case False
    with a show ?thesis
      by (simp add: round53_def Let_def split: if_splits)
  qed
qed

lemma floor_multiple:
  fixes n :: nat
  assumes "e \<le> k" and "2 ^ k \<le> n"
  shows "2 ^ k \<le> (n div 2 ^ e) * 2 ^ e"
proof -
  have "(2::nat) ^ k = 2 ^ (k - e) * 2 ^ e"
    using assms(1) by (simp add: power_add [symmetric])
  moreover have "2 ^ (k - e) \<le> n div 2 ^ e"
  proof -
    have "(2::nat) ^ k div 2 ^ e \<le> n div 2 ^ e"
      using assms(2) by (rule div_le_mono)
    moreover have "(2::nat) ^ k div 2 ^ e = 2 ^ (k - e)"
      using assms(1) by (simp add: power_diff)
    ultimately show ?thesis by simp
  qed
  ultimately show ?thesis by simp
qed

lemma round53_atLeast:
  assumes "2 ^ k \<le> n" and "round53 n = Finite v"
  shows "2 ^ k \<le> v"
proof (cases "n < 2 ^ 53")
  case True
  with assms show ?thesis by (simp add: round53_def)
next
  case False
  define e where "e = bitLength n - 53"
  define m where "m = n div 2 ^ e"
  define m' where "m' = (if 2 ^ (e - 1) < n mod 2 ^ e \<or> (n mod 2 ^ e = 2 ^ (e - 1) \<and> odd m) then m + 1 else m)"
  have "round53 n = (if 2 ^ 1024 \<le> m' * 2 ^ e then Infinity else Finite (m' * 2 ^ e))"
    unfolding round53_def Let_def m'_def m_def e_def
    by (simp only: False if_False)
  with assms(2) have v: "v = m' * 2 ^ e"
    by (cases "2 ^ 1024 \<le> m' * 2 ^ e") (simp_all only: if_True if_False number.distinct number.inject)
  have mm: "m \<le> m'" by (simp add: m'_def)
  have n0: "n \<noteq> 0" using False by auto
  show ?thesis
  proof (cases "e \<le> k")
    case True
    have "2 ^ k \<le> m * 2 ^ e"
      unfolding m_def using True assms(1) by (rule floor_multiple)
    also have "\<dots> \<le> m' * 2 ^ e" using mm by simp
    finally show ?thesis by (simp add: v)
  next
    case False
    have "(2::nat) ^ e \<le> 2 ^ (bitLength n - 1)"
      by (rule power_increasing) (simp_all add: e_def)
    also have "\<dots> \<le> n" using n0 by (rule bitLength_lower)
    finally have "1 \<le> m" by (simp add: m_def div_greater_zero_iff Suc_le_eq)
    with mm have "1 \<le> m'" by simp
    then have "1 * (2::nat) ^ e \<le> m' * 2 ^ e" by (rule mult_le_mono1)
    then have le: "(2::nat) ^ e \<le> m' * 2 ^ e" by simp
    have "(2::nat) ^ k \<le> 2 ^ e"
      using False by (intro power_increasing) simp_all
    also note le
    finally show ?thesis by (simp add: v)
  qed
qed


lemma round53_atLeastPow: "2 ^ k \<le> n \<Longrightarrow> atLeastPow k (round53 n)"
proof -
  assume a: "2 ^ k \<le> n"
  show ?thesis
  proof (cases "round53 n")
    case (Finite v)
    with a round53_atLeast [of k n v] show ?thesis by (simp add: atLeastPow_def)
  next
    case Infinity
    then show ?thesis by (simp add: atLeastPow_def)
  next
    case NaN
    then show ?thesis
      by (simp add: round53_def Let_def split: if_splits)
  qed
qed

lemma step_atLeastPow:
  assumes "atLeastPow k a"
  shows "atLeastPow (k + 8) (jsPlus (jsTimes a 256) b)"
proof (cases a)
  case (Finite x)
  with assms have x: "2 ^ k \<le> x" by (simp add: atLeastPow_def)
  have "(2::nat) ^ (k + 8) = 2 ^ k * 256" by (simp add: power_add)
  also have "\<dots> \<le> x * 256" using x by simp
  finally have t: "atLeastPow (k + 8) (round53 (x * 256))" by (rule round53_atLeastPow)
  show ?thesis
  proof (cases "round53 (x * 256)")
    case (Finite y)
    with t have "2 ^ (k + 8) \<le> y" by (simp add: atLeastPow_def)
    then have "2 ^ (k + 8) \<le> y + b" by simp
    then have "atLeastPow (k + 8) (round53 (y + b))" by (rule round53_atLeastPow)
    with Finite \<open>a = Finite x\<close> show ?thesis by (simp add: jsPlus_def jsTimes_def)
  next
    case Infinity
    with \<open>a = Finite x\<close> show ?thesis by (simp add: jsPlus_def jsTimes_def atLeastPow_def)
  next
    case NaN
    with t show ?thesis by (simp add: atLeastPow_def)
  qed
next
  case Infinity
  then show ?thesis by (simp add: jsPlus_def jsTimes_def atLeastPow_def)
next
  case NaN
  with assms show ?thesis by (simp add: atLeastPow_def)
qed

lemma fold_atLeastPow:
  "atLeastPow k a \<Longrightarrow>
   atLeastPow (k + 8 * length bs) (foldl (\<lambda>a b. jsPlus (jsTimes a 256) b) a bs)"
proof (induction bs arbitrary: k a)
  case Nil
  then show ?case by simp
next
  case (Cons b bs)
  from Cons.prems have "atLeastPow (k + 8) (jsPlus (jsTimes a 256) b)"
    by (rule step_atLeastPow)
  from Cons.IH [OF this] show ?case by (simp add: add.assoc)
qed

lemma atLeastPow_mono: "j \<le> k \<Longrightarrow> atLeastPow k a \<Longrightarrow> atLeastPow j a"
proof (cases a)
  case (Finite v)
  assume "j \<le> k" and "atLeastPow k a"
  then have "(2::nat) ^ j \<le> 2 ^ k" and "2 ^ k \<le> v"
    using Finite by (simp_all add: atLeastPow_def)
  then have "2 ^ j \<le> v" by (rule order_trans)
  with Finite show ?thesis by (simp add: atLeastPow_def)
qed (simp_all add: atLeastPow_def)

lemma finite_below:
  "foldl (\<lambda>a b. jsPlus (jsTimes a 256) b) a bs = Finite v \<Longrightarrow> a = Finite 0 \<or> bs \<noteq> [] \<Longrightarrow> v < 2 ^ 1024"
proof (induction bs arbitrary: v rule: rev_induct)
  case Nil
  then show ?case by simp
next
  case (snoc b bs)
  let ?prev = "foldl (\<lambda>a b. jsPlus (jsTimes a 256) b) a bs"
  from snoc.prems(1) have "jsPlus (jsTimes ?prev 256) b = Finite v" by simp
  then obtain y where "round53 (y + b) = Finite v"
    by (auto simp add: jsPlus_def jsTimes_def split: number.splits)
  then show ?case by (rule round53_below)
qed

lemma overflow:
  assumes "1 \<le> b" and "128 \<le> length rest"
  shows "foldl (\<lambda>a b. jsPlus (jsTimes a 256) b) (Finite 0) (b # rest) = Infinity"
proof -
  let ?f = "\<lambda>a b. jsPlus (jsTimes a 256) b"
  have first: "?f (Finite 0) b = round53 b"
    by (simp add: jsPlus_def jsTimes_def round53_def)
  have "atLeastPow 0 (round53 b)"
    using assms(1) by (intro round53_atLeastPow) simp
  then have "atLeastPow (0 + 8 * length rest) (foldl ?f (round53 b) rest)"
    by (rule fold_atLeastPow)
  then have big: "atLeastPow 1024 (foldl ?f (round53 b) rest)"
    using assms(2) by (intro atLeastPow_mono [of 1024 "0 + 8 * length rest"]) simp_all
  have eq: "foldl ?f (Finite 0) (b # rest) = foldl ?f (round53 b) rest"
    by (simp add: first)
  show ?thesis
  proof (cases "foldl ?f (Finite 0) (b # rest)")
    case (Finite v)
    then have lt: "v < 2 ^ 1024" by (rule finite_below) simp
    from Finite eq have "foldl ?f (round53 b) rest = Finite v" by (simp only:)
    with big have "2 ^ 1024 \<le> v" by (simp only: atLeastPow_def number.case)
    with lt show ?thesis using leD by blast
  next
    case Infinity
    then show ?thesis .
  next
    case NaN
    with eq have "foldl ?f (round53 b) rest = NaN" by (simp only:)
    with big show ?thesis by (simp only: atLeastPow_def number.case)
  qed
qed


lemma codesLoop_Infinity: "codesLoop k Infinity = replicate k NaN"
  by (induction k) (simp_all add: jsMod_def jsFloorDiv_def charMap_def)

lemma uniqueStringFrom_overflow:
  assumes "1 \<le> len" and "1 \<le> b" and "128 \<le> length rest"
  shows "uniqueStringFrom (b # rest) len = replicate len 0"
proof -
  from assms(1) obtain k where len: "len = Suc k" by (cases len) auto
  show ?thesis
    unfolding uniqueStringFrom_def overflow [OF assms(2,3)] Let_def
    by (simp add: len codesLoop_Infinity jsMod_def jsFloorDiv_def charMap_def fromCharCode_def)
qed

lemma log2_52: "57 / 10 \<le> log 2 52"
proof -
  have "(57::real) = log 2 (2 ^ 57)" using log_pow_cancel [of 2 57] by simp
  also have "\<dots> \<le> log 2 (52 ^ 10)" by (subst log_le_cancel_iff) simp_all
  also have "\<dots> = 10 * log 2 52" using log_nat_power [of 52 2 10] by simp
  finally show ?thesis by simp
qed

lemma log2_62: "119 / 20 \<le> log 2 62"
proof -
  have "(119::real) = log 2 (2 ^ 119)" using log_pow_cancel [of 2 119] by simp
  also have "\<dots> \<le> log 2 (62 ^ 20)" by (subst log_le_cancel_iff) simp_all
  also have "\<dots> = 20 * log 2 62" using log_nat_power [of 62 2 20] by simp
  finally show ?thesis by simp
qed

lemma byteLength_large:
  assumes "173 \<le> len"
  shows "129 \<le> byteLength len"
proof -
  define x where "x = (log 2 52 + log 2 62 * (real len - 1)) / 8"
  have r: "172 \<le> real len - 1" using assms by simp
  have pos: "0 \<le> log 2 62" using log2_62 by simp
  have "119 / 20 * 172 \<le> log 2 62 * 172" using log2_62 by simp
  also have "\<dots> \<le> log 2 62 * (real len - 1)"
    using r pos by (rule mult_left_mono)
  finally have "57 / 10 + 119 / 20 * 172 \<le> log 2 52 + log 2 62 * (real len - 1)"
    using log2_52 by simp
  then have "real_of_int 128 < x" by (simp add: x_def)
  then have "128 < \<lceil>x\<rceil>" by (simp only: less_ceiling_iff)
  then have "129 \<le> nat \<lceil>x\<rceil>" by linarith
  then show ?thesis by (simp only: byteLength_def x_def)
qed

lemma sampleBytes_length: "length (sampleBytes n) = n"
  by (simp add: sampleBytes_def)

lemma sampleBytes_hd: "0 < n \<Longrightarrow> hd (sampleBytes n) = 57"
  by (simp add: sampleBytes_def upt_conv_Cons)

subsection \<open>Long identifiers\<close>

text \<open>
  C4. The claim is that for every length from 1 on the identifier has exactly that many
  characters, a letter first and letters or digits after it. From length 173 on at least
  129 random bytes are folded into the number, which is then at least \<open>2 ^ 1024\<close>
  unless the first byte is zero: the number is \<^verbatim>\<open>Infinity\<close>, every remainder is
  \<^verbatim>\<open>NaN\<close>, and the identifier consists of code units 0 only. Its length is right, its
  characters are neither letters nor digits.
\<close>

theorem uniqueString_overflow:
  assumes "173 \<le> len"
    and "\<forall>n. length (randomBytes n) = n"
    and "hd (randomBytes (byteLength len)) \<noteq> 0"
  shows "uniqueString randomBytes len = replicate len 0"
proof -
  have n: "129 \<le> byteLength len" using assms(1) by (rule byteLength_large)
  with assms(2) have l: "length (randomBytes (byteLength len)) = byteLength len" by simp
  with n obtain b rest where br: "randomBytes (byteLength len) = b # rest"
    by (cases "randomBytes (byteLength len)") auto
  with assms(3) have b: "1 \<le> b" by simp
  from br l n have rest: "128 \<le> length rest" by simp
  from assms(1) have len: "1 \<le> len" "len \<noteq> 0" by simp_all
  show ?thesis
    by (simp add: uniqueString_def len br uniqueStringFrom_overflow [OF len(1) b rest])
qed

theorem uniqueString_overflow_witness:
  "(173::nat) \<le> 200 \<and> (\<forall>n. length (sampleBytes n) = n) \<and>
   hd (sampleBytes (byteLength 200)) \<noteq> 0 \<and>
   uniqueString sampleBytes 200 = replicate 200 0 \<and>
   \<not> isLetter (hd (uniqueString sampleBytes 200))"
proof -
  have a: "(173::nat) \<le> 200" by simp
  have b: "\<forall>n. length (sampleBytes n) = n" by (simp add: sampleBytes_length)
  have "0 < byteLength 200" using byteLength_large [OF a] by simp
  then have c: "hd (sampleBytes (byteLength 200)) \<noteq> 0" by (simp add: sampleBytes_hd)
  have d: "uniqueString sampleBytes 200 = replicate 200 0"
    using a b c by (rule uniqueString_overflow)
  have "hd (replicate (200::nat) (0::nat)) = 0" by (simp add: hd_replicate)
  then have e: "\<not> isLetter (hd (uniqueString sampleBytes 200))"
    by (simp add: d isLetter_def)
  from a b c d e show ?thesis by blast
qed

subsection \<open>Identifiers from a finite number\<close>

lemma round53_tiny: "n < 200 \<Longrightarrow> round53 n = Finite n"
  by (simp add: round53_def)

lemma charMap_letter:
  assumes "i < 52"
  shows "\<exists>c. charMap (Finite i) = Finite c \<and> isLetter c"
proof (cases "i < 26")
  case True
  then have "charMap (Finite i) = Finite (i + 97)"
    by (simp add: charMap_def round53_tiny)
  moreover have "isLetter (i + 97)" using True by (simp add: isLetter_def)
  ultimately show ?thesis by blast
next
  case False
  have "charMap (Finite i) = Finite (i - 26 + 65)"
    using False assms by (simp add: charMap_def jsPlus_def round53_tiny)
  moreover have "isLetter (i - 26 + 65)" using False assms by (simp add: isLetter_def)
  ultimately show ?thesis by blast
qed

lemma charMap_alphanumeric:
  assumes "i < 62"
  shows "\<exists>c. charMap (Finite i) = Finite c \<and> isAlphanumeric c"
proof (cases "i < 52")
  case True
  then show ?thesis using charMap_letter [of i] by (auto simp add: isAlphanumeric_def)
next
  case False
  have "charMap (Finite i) = Finite (i - 52 + 48)"
    using False assms by (simp add: charMap_def jsPlus_def round53_tiny)
  moreover have "48 \<le> i - 52 + 48 \<and> i - 52 + 48 \<le> 57"
    using False assms by arith
  then have "isAlphanumeric (i - 52 + 48)"
    by (simp only: isAlphanumeric_def simp_thms)
  ultimately show ?thesis by blast
qed

lemma fromCharCode_small: "c < 65536 \<Longrightarrow> fromCharCode (Finite c) = c"
  by (simp add: fromCharCode_def)

lemma isAlphanumeric_small: "isAlphanumeric c \<Longrightarrow> c < 65536"
  by (auto simp add: isAlphanumeric_def isLetter_def)

lemma codesLoop_finite:
  "length (codesLoop k (Finite x)) = k \<and>
   list_all isAlphanumeric (map fromCharCode (codesLoop k (Finite x)))"
proof (induction k arbitrary: x)
  case 0
  then show ?case by simp
next
  case (Suc k)
  have "x mod 62 < 62" by simp
  then obtain c where c: "charMap (Finite (x mod 62)) = Finite c" "isAlphanumeric c"
    using charMap_alphanumeric by blast
  then have "fromCharCode (Finite c) = c"
    by (intro fromCharCode_small isAlphanumeric_small)
  with c Suc.IH [of "floorQuotient x 62"] show ?case
    by (simp add: jsMod_def jsFloorDiv_def)
qed

text \<open>
  As long as the number folded from the random bytes is finite, the identifier is what C4
  describes: it has the requested length, its first character is a letter and the others
  are letters or digits. The length 0 gives the empty string without reading any random
  byte.
\<close>

theorem uniqueStringFrom_finite:
  assumes "foldl (\<lambda>a b. jsPlus (jsTimes a 256) b) (Finite 0) bytes = Finite N" and "1 \<le> len"
  shows "length (uniqueStringFrom bytes len) = len \<and>
         isLetter (hd (uniqueStringFrom bytes len)) \<and>
         list_all isAlphanumeric (tl (uniqueStringFrom bytes len))"
proof -
  have "N mod 52 < 52" by simp
  then obtain c where c: "charMap (Finite (N mod 52)) = Finite c" "isLetter c"
    using charMap_letter by blast
  then have "isAlphanumeric c" by (simp add: isAlphanumeric_def)
  then have f: "fromCharCode (Finite c) = c"
    by (intro fromCharCode_small isAlphanumeric_small)
  have u: "uniqueStringFrom bytes len =
             c # map fromCharCode (codesLoop (len - 1) (Finite (floorQuotient N 52)))"
    by (simp add: uniqueStringFrom_def assms(1) Let_def jsMod_def jsFloorDiv_def c f)
  show ?thesis
    using codesLoop_finite [of "len - 1" "floorQuotient N 52"] c(2) assms(2)
    by (simp add: u)
qed

lemma sample_fold: "foldl (\<lambda>a b. jsPlus (jsTimes a 256) b) (Finite 0) (sampleBytes 6) = Finite 63303175151094"
  by (simp add: sampleBytes_def upt_rec jsPlus_def jsTimes_def round53_def)

theorem uniqueStringFrom_finite_witness:
  "foldl (\<lambda>a b. jsPlus (jsTimes a 256) b) (Finite 0) (sampleBytes 6) = Finite 63303175151094 \<and>
   (1::nat) \<le> 8 \<and>
   length (uniqueStringFrom (sampleBytes 6) 8) = 8 \<and>
   isLetter (hd (uniqueStringFrom (sampleBytes 6) 8)) \<and>
   list_all isAlphanumeric (tl (uniqueStringFrom (sampleBytes 6) 8))"
proof -
  have l: "(1::nat) \<le> 8" by simp
  from uniqueStringFrom_finite [OF sample_fold l] sample_fold l show ?thesis by blast
qed

lemma uniqueString_zero: "uniqueString randomBytes 0 = []"
  by (simp add: uniqueString_def)

end
